theory Spec2Isabelle
  imports Complex_Main "HOL-Library.Word" "HOL-Library.Signed_Division" "HOL-Library.Monad_Syntax"
begin

unbundle bit_operations_syntax

chapter \<open>The embedding\<close>

text \<open>
  A shallow embedding of the CUDA inference core (\<^verbatim>\<open>src/infer.cu\<close>, \<^verbatim>\<open>src/model.h\<close>).
  Host code is modelled as functions on the configuration that return the sequence of
  kernels they launch; device kernels are modelled by what their threads compute.
  Conventions:
  \<^item> a C \<^verbatim>\<open>int\<close> is an \<^typ>\<open>int\<close> in the range of 32 bits: the fields of the
    configuration and the arguments of a call are taken in that range, and a host
    operation whose result leaves it, a zero divisor and \<^verbatim>\<open>INT_MIN / -1\<close> are undefined
    behaviour, an error value; \<^verbatim>\<open>/\<close> and \<^verbatim>\<open>%\<close> truncate towards zero;
  \<^item> \<^verbatim>\<open>unsigned flags\<close> is a \<^typ>\<open>32 word\<close>;
  \<^item> \<^verbatim>\<open>float\<close> is idealised as \<^typ>\<open>real\<close>: rounding, overflow, infinities and NaN are
    not modelled, so every statement about values is a statement in exact arithmetic;
  \<^item> a device buffer is a function from indices to values; the buffer \<^verbatim>\<open>exp\<close>, which
    the code reads both as \<^verbatim>\<open>float\<close> and as \<^verbatim>\<open>int\<close>, is a list of 32-bit patterns;
  \<^item> an \<^verbatim>\<open>assert\<close> that fails, undefined behaviour and a kernel launch that the
    runtime rejects for its grid or block are results of type \<open>error\<close>; the other errors
    that \<^verbatim>\<open>CUDA_CHECK\<close> can report (allocation, the size of shared memory, a fault of a
    running kernel) are not modelled, and a call is entered with no error recorded in
    the runtime; the profiling tokens \<^verbatim>\<open>PROF_TOKEN(...)\<close> are left out.
\<close>

section \<open>Configuration (\<^verbatim>\<open>model.h\<close>)\<close>

datatype Arch = LlamaLike | Qwen | Phi | Mixtral | Olmo | Gemma

record Config =
  arch :: Arch
  dim :: int
  hidden_dim :: int
  head_dim :: int
  n_layers :: int
  n_heads :: int
  n_kv_heads :: int
  vocab_size :: int
  seq_len :: int
  rope_theta :: real
  rotary_dim :: int
  n_experts :: int
  n_experts_ac :: int
  norm_eps :: real
  embed_scale :: real

text \<open>\<^verbatim>\<open>#define KV_SINKS 2\<close> and \<^verbatim>\<open>FF_UPDATE_KV_ONLY = 1 << 0\<close>.\<close>

definition KV_SINKS :: int where
  "KV_SINKS = 2"

definition FF_UPDATE_KV_ONLY :: "32 word" where
  "FF_UPDATE_KV_ONLY = push_bit 0 1"

text \<open>The tiny dense model of the specification's first end-to-end scenario.\<close>

definition tiny_config :: Config where
  "tiny_config = \<lparr> arch = LlamaLike, dim = 64, hidden_dim = 128, head_dim = 16, n_layers = 2,
     n_heads = 4, n_kv_heads = 2, vocab_size = 32, seq_len = 8, rope_theta = 10000,
     rotary_dim = 16, n_experts = 0, n_experts_ac = 0, norm_eps = 1 / 100000, embed_scale = 1 \<rparr>"

section \<open>The rolling KV window (\<^verbatim>\<open>forward\<close>, \<^verbatim>\<open>forwardcoop\<close>)\<close>

text \<open>
  The range of \<^verbatim>\<open>int\<close>, and the result of a host operation on \<^verbatim>\<open>int\<close> whose
  mathematical value is \<open>x\<close>: signed overflow is undefined behaviour, here \<open>None\<close>.
\<close>

definition INT_MIN :: int where
  "INT_MIN = - 2147483648"

definition INT_MAX :: int where
  "INT_MAX = 2147483647"

definition c_int :: "int \<Rightarrow> int option" where
  "c_int x = (if INT_MIN \<le> x \<and> x \<le> INT_MAX then Some x else None)"

text \<open>
  C's \<^verbatim>\<open>a / b\<close> and \<^verbatim>\<open>a % b\<close> on \<^verbatim>\<open>int\<close>: the quotient is truncated towards zero
  (\<open>sdiv\<close>) and the remainder has the sign of the dividend (\<open>smod\<close>); \<^verbatim>\<open>b == 0\<close> and
  \<^verbatim>\<open>INT_MIN\<close> by \<open>-1\<close> (whose quotient is not an \<^verbatim>\<open>int\<close>) are undefined behaviour.
\<close>

definition c_div :: "int \<Rightarrow> int \<Rightarrow> int option" where
  "c_div a b = (if b = 0 \<or> (a = INT_MIN \<and> b = - 1) then None else Some (a sdiv b))"

definition c_mod :: "int \<Rightarrow> int \<Rightarrow> int option" where
  "c_mod a b = (if b = 0 \<or> (a = INT_MIN \<and> b = - 1) then None else Some (a smod b))"

text \<open>
  \<^verbatim>\<open>int kv_sink = pos >= p->seq_len ? KV_SINKS : 0;\<close>
  \<^verbatim>\<open>int kv_pos = kv_sink + (pos - kv_sink) % (p->seq_len - kv_sink);\<close>
  \<^verbatim>\<open>int kv_len = pos >= p->seq_len ? p->seq_len : pos + 1;\<close>
  The same three lines stand in both drivers. \<^verbatim>\<open>pos + 1\<close> is evaluated for
  \<open>pos < seq_len\<close> only, where it cannot leave the range of \<^verbatim>\<open>int\<close>.
\<close>

definition kv_sink :: "Config \<Rightarrow> int \<Rightarrow> int" where
  "kv_sink p pos = (if pos \<ge> seq_len p then KV_SINKS else 0)"

definition kv_pos :: "Config \<Rightarrow> int \<Rightarrow> int option" where
  "kv_pos p pos =
     do { a \<leftarrow> c_int (pos - kv_sink p pos);
          b \<leftarrow> c_int (seq_len p - kv_sink p pos);
          r \<leftarrow> c_mod a b;
          c_int (kv_sink p pos + r) }"

definition kv_len :: "Config \<Rightarrow> int \<Rightarrow> int" where
  "kv_len p pos = (if pos \<ge> seq_len p then seq_len p else pos + 1)"

section \<open>The host drivers as launch sequences\<close>

text \<open>
  A failed \<^verbatim>\<open>assert\<close> aborts the process, and so does \<^verbatim>\<open>CUDA_CHECK\<close> on an error of
  the runtime; overflow and division by zero on the host are undefined.
  The drivers return \<^verbatim>\<open>NULL\<close> or the host-visible \<^verbatim>\<open>s->logits\<close>.
\<close>

datatype error = Assertion_failed | Undefined_behaviour | Launch_failed

datatype retval = NULL | Logits

text \<open>
  The phases of one layer inside \<^verbatim>\<open>kernel_fused_coop\<close>, separated by \<^verbatim>\<open>syncgrid()\<close>,
  and the scalar fields of \<^verbatim>\<open>CoopArgs\<close> (the buffer pointers are left out).
  \<^verbatim>\<open>CoopArgs\<close> has no field for the flags.
\<close>

datatype phase =
    P_att_rmsnorm nat
  | P_rope_qkv nat
  | P_attn_score nat
  | P_attn_softmax nat
  | P_attn_mix nat
  | P_attn_out nat
  | P_ffn_rmsnorm nat
  | P_moe_gate nat
  | P_ffn13 nat
  | P_ffn2 nat

record CoopArgs =
  ca_n_layers :: int
  ca_dim :: int
  ca_hidden_dim :: int
  ca_head_dim :: int
  ca_n_heads :: int
  ca_n_kv_heads :: int
  ca_n_experts :: int
  ca_n_experts_ac :: int
  ca_seq_len :: int
  ca_rotary_dim :: int
  ca_act_gelu :: bool
  ca_kv_len :: int
  ca_kv_pos :: int
  ca_pos :: int
  ca_norm_eps :: real
  ca_theta_log2 :: real

text \<open>
  One constructor per kernel, with the layer it is launched for and the window arguments
  (\<open>pos\<close>, \<open>kv_pos\<close>, \<open>kv_len\<close>, \<open>kv_sink\<close>) it is given; the two kernels of the
  cooperative driver with the number of blocks \<^verbatim>\<open>coopsms\<close> they are launched on.
\<close>

datatype launch =
    K_embed int
  | K_rotate_sink int
  | K_layernorm nat
  | K_rmsnorm nat
  | K_matmul_rope_qkv nat int int
  | K_attn_score nat int
  | K_attn_softmax nat int
  | K_attn_mix nat int
  | K_matmul_attn nat
  | K_moe_gate nat
  | K_matmul_moe_ffn13_silu nat
  | K_matmul_moe_ffn2 nat
  | K_matmul_ffn1_gelu nat
  | K_matmul_ffn2 nat
  | K_matmul_ffn13_gelu nat
  | K_matmul_ffn13_silu nat
  | K_final_layernorm
  | K_final_rmsnorm
  | K_matmul_cls
  | K_fused_coop int CoopArgs
  | K_output int

text \<open>\<^verbatim>\<open>(flags & FF_UPDATE_KV_ONLY) != 0\<close>\<close>

definition update_kv_only :: "32 word \<Rightarrow> bool" where
  "update_kv_only flags = (flags AND FF_UPDATE_KV_ONLY \<noteq> 0)"

text \<open>
  The body of the layer loop of \<^verbatim>\<open>forward\<close>: the input norm (LayerNorm for Phi and
  Olmo, RMSNorm otherwise) and the fused QKV kernel; then attention; then the feed-forward
  variant of the architecture. The Mixtral branch asserts \<^verbatim>\<open>p->n_experts <= 32\<close>.
\<close>

definition att_norm :: "Config \<Rightarrow> nat \<Rightarrow> launch" where
  "att_norm p l = (if arch p = Phi \<or> arch p = Olmo then K_layernorm l else K_rmsnorm l)"

definition qkv_launches :: "Config \<Rightarrow> int \<Rightarrow> int \<Rightarrow> nat \<Rightarrow> launch list" where
  "qkv_launches p pos kvp l = [att_norm p l, K_matmul_rope_qkv l pos kvp]"

definition attn_launches :: "Config \<Rightarrow> int \<Rightarrow> nat \<Rightarrow> launch list" where
  "attn_launches p pos l =
     [K_attn_score l (kv_len p pos), K_attn_softmax l (kv_len p pos),
      K_attn_mix l (kv_len p pos), K_matmul_attn l]"

definition ffn_launches :: "Config \<Rightarrow> nat \<Rightarrow> error + launch list" where
  "ffn_launches p l =
     (if arch p = Mixtral then
        (if n_experts p \<le> 32
         then Inr [K_rmsnorm l, K_moe_gate l, K_matmul_moe_ffn13_silu l, K_matmul_moe_ffn2 l]
         else Inl Assertion_failed)
      else if arch p = Phi then Inr [K_matmul_ffn1_gelu l, K_matmul_ffn2 l]
      else Inr [if arch p = Olmo then K_layernorm l else K_rmsnorm l,
                if arch p = Gemma then K_matmul_ffn13_gelu l else K_matmul_ffn13_silu l,
                K_matmul_ffn2 l])"

text \<open>
  \<^verbatim>\<open>for (int l = 0; l < p->n_layers; l++)\<close> over the list of layers still to run, with the
  \<^verbatim>\<open>break\<close> after the QKV kernel of the last layer when the flag is set.
\<close>

fun forward_layers :: "Config \<Rightarrow> int \<Rightarrow> int \<Rightarrow> 32 word \<Rightarrow> nat list \<Rightarrow> error + launch list" where
  "forward_layers p pos kvp flags [] = Inr []"
| "forward_layers p pos kvp flags (l # ls) =
     (if int l = n_layers p - 1 \<and> update_kv_only flags then Inr (qkv_launches p pos kvp l)
      else case ffn_launches p l of
             Inl e \<Rightarrow> Inl e
           | Inr ffn \<Rightarrow>
               (case forward_layers p pos kvp flags ls of
                  Inl e \<Rightarrow> Inl e
                | Inr rest \<Rightarrow> Inr (qkv_launches p pos kvp l @ attn_launches p pos l @ ffn @ rest)))"

text \<open>
  \<^verbatim>\<open>assert(dim % 32 == 0 && kv_dim % 32 == 0 && hidden_dim % 32 == 0);\<close> with
  \<^verbatim>\<open>kv_dim = p->head_dim * p->n_kv_heads\<close>.
\<close>

definition warp_aligned :: "Config \<Rightarrow> bool" where
  "warp_aligned p =
     (dim p smod 32 = 0 \<and> (head_dim p * n_kv_heads p) smod 32 = 0 \<and> hidden_dim p smod 32 = 0)"

definition sink_launches :: "Config \<Rightarrow> int \<Rightarrow> launch list" where
  "sink_launches p pos = (if kv_sink p pos > 0 then [K_rotate_sink (kv_sink p pos)] else [])"

definition final_norm :: "Config \<Rightarrow> launch" where
  "final_norm p = (if arch p = Phi \<or> arch p = Olmo then K_final_layernorm else K_final_rmsnorm)"

text \<open>
  The execution configuration \<^verbatim>\<open><<<grid, block, ...>>>\<close> of a launch: the \<open>x\<close> and \<open>y\<close>
  sizes of the grid and of the block, as the \<^verbatim>\<open>int\<close> expressions of the launch site (they
  are converted to \<^verbatim>\<open>unsigned\<close>, where a negative value becomes one above every limit).
  The runtime rejects a launch when a size is 0, when the grid is larger than
  \<open>2\<^sup>3\<^sup>1 - 1\<close> by 65535, or when the block has more than 1024 threads.
\<close>

type_synonym dims = "(int \<times> int) \<times> (int \<times> int)"

definition launch_valid :: "dims \<Rightarrow> bool" where
  "launch_valid d =
     (case d of ((gx, gy), (bx, by)) \<Rightarrow>
        1 \<le> gx \<and> gx \<le> 2147483647 \<and> 1 \<le> gy \<and> gy \<le> 65535 \<and> 1 \<le> bx \<and> 1 \<le> by \<and> bx * by \<le> 1024)"

text \<open>
  The launch sites of the two drivers, with \<^verbatim>\<open>q_dim = p->head_dim * p->n_heads\<close>,
  \<^verbatim>\<open>kv_dim = p->head_dim * p->n_kv_heads\<close>, \<^verbatim>\<open>kv_mul = p->n_heads / p->n_kv_heads\<close>,
  \<^verbatim>\<open>matmul_par = 2\<close>, \<^verbatim>\<open>attn_par = 2\<close>, \<^verbatim>\<open>softmax_size = p->arch == Phi ? 512 : 1024\<close>:
  \<^verbatim>\<open>kernel_embed<<<dim / 32, 32>>>\<close>,
  \<^verbatim>\<open>kernel_rotate_sink<<<dim3(kv_sink * kv_dim / 64, p->n_layers), 32>>>\<close>,
  \<^verbatim>\<open>kernel_layernorm<<<1, 1024>>>\<close>, \<^verbatim>\<open>kernel_rmsnorm<<<1, 1024>>>\<close>,
  \<^verbatim>\<open>kernel_matmul_rope_qkv<<<(q_dim + kv_dim * 2) / 2, 32 * 2>>>\<close>,
  \<^verbatim>\<open>kernel_attn_score<<<dim3((kv_len + 64 * attn_par - 1) / (64 * attn_par), p->n_kv_heads), dim3(32 * attn_par, kv_mul)>>>\<close>,
  \<^verbatim>\<open>kernel_attn_softmax<<<p->n_heads, softmax_size>>>\<close>,
  \<^verbatim>\<open>kernel_attn_mix<<<dim3(p->head_dim / attn_par, p->n_kv_heads), dim3(32 * attn_par, kv_mul)>>>\<close>,
  \<^verbatim>\<open>kernel_matmul_attn<<<dim / matmul_par, 32 * matmul_par>>>\<close>,
  \<^verbatim>\<open>kernel_moe_gate<<<1, 32 * p->n_experts>>>\<close>,
  \<^verbatim>\<open>kernel_matmul_moe_ffn13_silu<<<hidden_dim, dim3(32, p->n_experts_ac)>>>\<close>,
  \<^verbatim>\<open>kernel_matmul_moe_ffn2<<<dim, dim3(32, p->n_experts_ac)>>>\<close>,
  \<^verbatim>\<open>kernel_matmul_ffn1_gelu\<close>, \<^verbatim>\<open>kernel_matmul_ffn13_gelu\<close>, \<^verbatim>\<open>kernel_matmul_ffn13_silu\<close>
  \<^verbatim>\<open><<<hidden_dim / matmul_par, 32 * matmul_par>>>\<close>,
  \<^verbatim>\<open>kernel_matmul_ffn2<<<dim / matmul_par, 32 * matmul_par>>>\<close>,
  \<^verbatim>\<open>kernel_matmul_cls<<<p->vocab_size / 32, 32 * 32>>>\<close>, and in the cooperative driver
  \<^verbatim>\<open>cudaLaunchCooperativeKernel(..., coopsms, 1024, ...)\<close> and
  \<^verbatim>\<open>kernel_output<<<coopsms, 32 * 32>>>\<close>. The result is \<open>None\<close> when an expression
  overflows or divides by zero.
\<close>

fun launch_dims :: "Config \<Rightarrow> launch \<Rightarrow> dims option" where
  "launch_dims p (K_embed token) = Some ((dim p sdiv 32, 1), (32, 1))"
| "launch_dims p (K_rotate_sink kvs) =
     do { kv_dim \<leftarrow> c_int (head_dim p * n_kv_heads p);
          n \<leftarrow> c_int (kvs * kv_dim);
          Some ((n sdiv 64, n_layers p), (32, 1)) }"
| "launch_dims p (K_layernorm l) = Some ((1, 1), (1024, 1))"
| "launch_dims p (K_rmsnorm l) = Some ((1, 1), (1024, 1))"
| "launch_dims p (K_matmul_rope_qkv l pos kvp) =
     do { q_dim \<leftarrow> c_int (head_dim p * n_heads p);
          kv_dim \<leftarrow> c_int (head_dim p * n_kv_heads p);
          kv2 \<leftarrow> c_int (kv_dim * 2);
          n \<leftarrow> c_int (q_dim + kv2);
          Some ((n sdiv 2, 1), (32 * 2, 1)) }"
| "launch_dims p (K_attn_score l kvl) =
     do { kv_mul \<leftarrow> c_div (n_heads p) (n_kv_heads p);
          a \<leftarrow> c_int (kvl + 64 * 2);
          b \<leftarrow> c_int (a - 1);
          Some ((b sdiv (64 * 2), n_kv_heads p), (32 * 2, kv_mul)) }"
| "launch_dims p (K_attn_softmax l kvl) =
     Some ((n_heads p, 1), (if arch p = Phi then 512 else 1024, 1))"
| "launch_dims p (K_attn_mix l kvl) =
     do { kv_mul \<leftarrow> c_div (n_heads p) (n_kv_heads p);
          Some ((head_dim p sdiv 2, n_kv_heads p), (32 * 2, kv_mul)) }"
| "launch_dims p (K_matmul_attn l) = Some ((dim p sdiv 2, 1), (32 * 2, 1))"
| "launch_dims p (K_moe_gate l) =
     do { n \<leftarrow> c_int (32 * n_experts p);
          Some ((1, 1), (n, 1)) }"
| "launch_dims p (K_matmul_moe_ffn13_silu l) = Some ((hidden_dim p, 1), (32, n_experts_ac p))"
| "launch_dims p (K_matmul_moe_ffn2 l) = Some ((dim p, 1), (32, n_experts_ac p))"
| "launch_dims p (K_matmul_ffn1_gelu l) = Some ((hidden_dim p sdiv 2, 1), (32 * 2, 1))"
| "launch_dims p (K_matmul_ffn2 l) = Some ((dim p sdiv 2, 1), (32 * 2, 1))"
| "launch_dims p (K_matmul_ffn13_gelu l) = Some ((hidden_dim p sdiv 2, 1), (32 * 2, 1))"
| "launch_dims p (K_matmul_ffn13_silu l) = Some ((hidden_dim p sdiv 2, 1), (32 * 2, 1))"
| "launch_dims p K_final_layernorm = Some ((1, 1), (1024, 1))"
| "launch_dims p K_final_rmsnorm = Some ((1, 1), (1024, 1))"
| "launch_dims p K_matmul_cls = Some ((vocab_size p sdiv 32, 1), (32 * 32, 1))"
| "launch_dims p (K_fused_coop sms args) = Some ((sms, 1), (1024, 1))"
| "launch_dims p (K_output sms) = Some ((sms, 1), (32 * 32, 1))"

text \<open>
  The launches of a call, checked: \<open>None\<close> when the configuration of one is undefined,
  otherwise whether the runtime accepts them all.
\<close>

definition launches_accepted :: "Config \<Rightarrow> launch list \<Rightarrow> bool option" where
  "launches_accepted p tr =
     (if list_ex (\<lambda>k. launch_dims p k = None) tr then None
      else Some (list_all (\<lambda>k. case launch_dims p k of None \<Rightarrow> False | Some d \<Rightarrow> launch_valid d) tr))"

text \<open>
  \<^verbatim>\<open>forward\<close>, in the order of the source: \<^verbatim>\<open>q_dim\<close>, \<^verbatim>\<open>kv_dim\<close>, \<^verbatim>\<open>kv_mul\<close> and the
  window (they can overflow or divide by zero), the alignment assertions,
  \<^verbatim>\<open>assert(token < p->vocab_size)\<close>, the embedding, the sink rotation, the layers, and after
  the loop either \<^verbatim>\<open>return NULL\<close> or the final norm, the classifier,
  \<^verbatim>\<open>CUDA_CHECK(cudaStreamSynchronize(stream)); CUDA_CHECK(cudaGetLastError());\<close> and
  \<^verbatim>\<open>return s->logits\<close>. No assertion mentions \<^verbatim>\<open>pos\<close>. A rejected launch is skipped and
  leaves its error for \<^verbatim>\<open>cudaGetLastError\<close>, which is called on the path that returns the
  logits only. An undefined launch expression is reported after the assertions.
\<close>

definition forward :: "Config \<Rightarrow> int \<Rightarrow> int \<Rightarrow> 32 word \<Rightarrow> error + (launch list \<times> retval)" where
  "forward p token pos flags =
     (case do { q_dim \<leftarrow> c_int (head_dim p * n_heads p);
                kv_dim \<leftarrow> c_int (head_dim p * n_kv_heads p);
                kv_mul \<leftarrow> c_div (n_heads p) (n_kv_heads p);
                kv_pos p pos } of
        None \<Rightarrow> Inl Undefined_behaviour
      | Some kvp \<Rightarrow>
          if \<not> warp_aligned p then Inl Assertion_failed
          else if vocab_size p smod 32 \<noteq> 0 then Inl Assertion_failed
          else if \<not> token < vocab_size p then Inl Assertion_failed
          else case forward_layers p pos kvp flags [0..<nat (n_layers p)] of
            Inl e \<Rightarrow> Inl e
          | Inr ls \<Rightarrow>
              (let tr = K_embed token # sink_launches p pos @ ls
                          @ (if update_kv_only flags then [] else [final_norm p, K_matmul_cls])
               in case launches_accepted p tr of
                    None \<Rightarrow> Inl Undefined_behaviour
                  | Some ok \<Rightarrow>
                      if update_kv_only flags then Inr (tr, NULL)
                      else if ok then Inr (tr, Logits)
                      else Inl Launch_failed))"

text \<open>
  \<^verbatim>\<open>kernel_fused_coop\<close>: \<^verbatim>\<open>for (int l = 0; l < args.n_layers; ++l)\<close> runs every phase
  of every layer; the gate runs only \<^verbatim>\<open>if (args.n_experts)\<close>.
\<close>

fun coop_layer_phases :: "CoopArgs \<Rightarrow> nat \<Rightarrow> phase list" where
  "coop_layer_phases args l =
     [P_att_rmsnorm l, P_rope_qkv l, P_attn_score l, P_attn_softmax l, P_attn_mix l, P_attn_out l,
      P_ffn_rmsnorm l] @ (if ca_n_experts args \<noteq> 0 then [P_moe_gate l] else []) @ [P_ffn13 l, P_ffn2 l]"

definition kernel_fused_coop :: "CoopArgs \<Rightarrow> phase list" where
  "kernel_fused_coop args = concat (map (coop_layer_phases args) [0..<nat (ca_n_layers args)])"

text \<open>The initialiser of \<^verbatim>\<open>CoopArgs<T, KVT> args\<close> in \<^verbatim>\<open>forwardcoop\<close>.\<close>

definition coop_args :: "Config \<Rightarrow> int \<Rightarrow> int \<Rightarrow> CoopArgs" where
  "coop_args p pos kvp =
     \<lparr> ca_n_layers = n_layers p,
       ca_dim = dim p,
       ca_hidden_dim = hidden_dim p,
       ca_head_dim = head_dim p,
       ca_n_heads = n_heads p,
       ca_n_kv_heads = n_kv_heads p,
       ca_n_experts = n_experts p,
       ca_n_experts_ac = (if arch p = Mixtral then n_experts_ac p else 1),
       ca_seq_len = seq_len p,
       ca_rotary_dim = rotary_dim p,
       ca_act_gelu = (arch p = Gemma),
       ca_kv_len = kv_len p pos,
       ca_kv_pos = kvp,
       ca_pos = pos,
       ca_norm_eps = norm_eps p,
       ca_theta_log2 = log 2 (rope_theta p) \<rparr>"

text \<open>
  \<^verbatim>\<open>forwardcoop\<close>, with the number of blocks \<^verbatim>\<open>coopsms\<close> that \<^verbatim>\<open>prepare_cuda\<close> has set:
  the architecture assertion, \<^verbatim>\<open>kv_dim\<close> and the window, the same assertions as
  \<^verbatim>\<open>forward\<close>, the embedding, the sink rotation, the one cooperative launch inside
  \<^verbatim>\<open>CUDA_CHECK\<close>, and then either \<^verbatim>\<open>return NULL\<close> or \<^verbatim>\<open>kernel_output\<close>, the two
  \<^verbatim>\<open>CUDA_CHECK\<close> and \<^verbatim>\<open>return s->logits\<close>.
\<close>

definition forwardcoop :: "int \<Rightarrow> Config \<Rightarrow> int \<Rightarrow> int \<Rightarrow> 32 word \<Rightarrow> error + (launch list \<times> retval)" where
  "forwardcoop coopsms p token pos flags =
     (if \<not> (arch p = LlamaLike \<or> arch p = Mixtral \<or> arch p = Gemma) then Inl Assertion_failed
      else case do { kv_dim \<leftarrow> c_int (head_dim p * n_kv_heads p); kv_pos p pos } of
        None \<Rightarrow> Inl Undefined_behaviour
      | Some kvp \<Rightarrow>
          if \<not> warp_aligned p then Inl Assertion_failed
          else if vocab_size p smod 32 \<noteq> 0 then Inl Assertion_failed
          else if \<not> token < vocab_size p then Inl Assertion_failed
          else
            (let tr = K_embed token # sink_launches p pos @ [K_fused_coop coopsms (coop_args p pos kvp)]
                        @ (if update_kv_only flags then [] else [K_output coopsms])
             in case launches_accepted p tr of
                  None \<Rightarrow> Inl Undefined_behaviour
                | Some ok \<Rightarrow>
                    if \<not> launch_valid ((coopsms, 1), (1024, 1)) then Inl Launch_failed
                    else if update_kv_only flags then Inr (tr, NULL)
                    else if ok then Inr (tr, Logits)
                    else Inl Launch_failed))"
section \<open>The fused QKV kernel with rotary encoding (\<^verbatim>\<open>kernel_matmul_rope_qkv\<close>)\<close>

text \<open>
  Modelled from the spec: \<^verbatim>\<open>matmul_warppar\<close>, declared in \<^verbatim>\<open>helpers.cuh\<close>, which is
  not among the sources. The specification has: compute \<open>y[i] = \<Sum>\<^sub>j W[i,j] * x[j]\<close> for
  output index \<open>i\<close>; one warp cooperates on a single row, each lane handling a stride of
  the inner dimension, followed by a warp-sum reduction; the dequantisation of the weight
  is inlined. The weights are taken dequantised and row-major, as \<^verbatim>\<open>w[i * n + j]\<close> in
  \<^verbatim>\<open>matmul_kernel\<close> of \<^verbatim>\<open>infer-cuda.cu\<close>.
\<close>

definition matmul_warppar :: "(nat \<Rightarrow> real) \<Rightarrow> (nat \<Rightarrow> real) \<Rightarrow> nat \<Rightarrow> nat \<Rightarrow> real" where
  "matmul_warppar x w i n = (\<Sum>j<n. w (i * n + j) * x j)"












section \<open>The sink rotation (\<^verbatim>\<open>kernel_rotate_sink\<close>) and the key cache across calls\<close>















text \<open>
  Following the specification, not the source: the rotation of a pair by an angle, that
  rotation as the cache stores it (each component converted to the cache type), the
  content of a sink pair, and the rotary frequency of row \<open>j\<close> (one "freq-unit").
\<close>

definition rotate2 :: "real \<Rightarrow> real \<times> real \<Rightarrow> real \<times> real" where
  "rotate2 \<theta> v = (fst v * cos \<theta> - snd v * sin \<theta>, fst v * sin \<theta> + snd v * cos \<theta>)"







section \<open>Attention softmax and mixing (\<^verbatim>\<open>kernel_attn_softmax\<close>, \<^verbatim>\<open>attn_warpdot\<close>)\<close>

text \<open>\<^verbatim>\<open>FLT_MAX\<close>, the largest finite single-precision value.\<close>

definition FLT_MAX :: real where
  "FLT_MAX = 340282346638528859811704183484516925440"














section \<open>The MoE gate (\<^verbatim>\<open>moe_gate_warp\<close>)\<close>

text \<open>
  \<^verbatim>\<open>__int_as_float\<close> reinterprets 32 bits as an IEEE-754 single: sign bit 31, exponent
  bits 30..23, fraction bits 22..0; the value of a finite pattern is
  \<open>\<plusminus> (2\<^sup>2\<^sup>3 + m) * 2\<^sup>e\<^sup>-\<^sup>1\<^sup>5\<^sup>0\<close>, or \<open>\<plusminus> m * 2\<^sup>-\<^sup>1\<^sup>4\<^sup>9\<close> for a subnormal (\<open>e = 0\<close>).
  Infinities and NaN (\<open>e = 255\<close>) have no real value and are given the value of the same
  formula. The other direction, \<^verbatim>\<open>__float_as_int\<close> of a computed float, includes the
  rounding of the real result to a float; it is a parameter of the model.
\<close>

definition int_as_float :: "32 word \<Rightarrow> real" where
  "int_as_float w =
     (let e = unat (drop_bit 23 w AND 0xFF);
          m = unat (w AND 0x7FFFFF);
          mag = (if e = 0 then real m * 2 ^ 1 / 2 ^ 150
                 else (2 ^ 23 + real m) * 2 ^ e / 2 ^ 150)
      in if bit w 31 then - mag else mag)"

text \<open>
  Modelled from the spec: \<^verbatim>\<open>warpreduce_max\<close> and \<^verbatim>\<open>warpreduce_maxi\<close>, declared in
  \<^verbatim>\<open>helpers.cuh\<close>, which is not among the sources. The specification has "iteratively
  extract the argmax \<open>Ea\<close> times via warp-reduction": every lane gets the maximum of the
  lanes' values, for \<^verbatim>\<open>int\<close> values the maximum as signed integers.
\<close>

definition warpreduce_max :: "real list \<Rightarrow> real" where
  "warpreduce_max vals = fold max vals (hd vals)"

definition warpreduce_maxi :: "32 word list \<Rightarrow> 32 word" where
  "warpreduce_maxi vals = fold (\<lambda>v m. if sint m < sint v then v else m) vals (hd vals)"

text \<open>
  The lanes of the warp before the selection loop:
  \<^verbatim>\<open>float w = (i < experts) ? weights[i] : -FLT_MAX;\<close>
  \<^verbatim>\<open>float max_val = warpreduce_max(w); w = expf(w - max_val);\<close>
  \<^verbatim>\<open>int wi = (__float_as_int(w) & 0xffffff00) | i;\<close>
\<close>

definition gate_lane_in :: "(nat \<Rightarrow> real) \<Rightarrow> nat \<Rightarrow> nat \<Rightarrow> real" where
  "gate_lane_in weights experts i = (if i < experts then weights i else - FLT_MAX)"

definition gate_w :: "(nat \<Rightarrow> real) \<Rightarrow> nat \<Rightarrow> nat \<Rightarrow> real" where
  "gate_w weights experts i =
     (let max_val = warpreduce_max (map (gate_lane_in weights experts) [0..<32])
      in exp (gate_lane_in weights experts i - max_val))"

definition gate_wi :: "(real \<Rightarrow> 32 word) \<Rightarrow> (nat \<Rightarrow> real) \<Rightarrow> nat \<Rightarrow> 32 word list" where
  "gate_wi float_as_int weights experts =
     map (\<lambda>i. (float_as_int (gate_w weights experts i) AND 0xffffff00) OR word_of_nat i) [0..<32]"

text \<open>
  The loop \<^verbatim>\<open>for (int k = 0; k < active; ++k)\<close> on the state of the warp: the lanes'
  \<^verbatim>\<open>wi\<close>, the lanes' \<^verbatim>\<open>acti\<close> and \<^verbatim>\<open>sumw\<close> (the same in every lane):
  \<^verbatim>\<open>int maxi = warpreduce_maxi(wi); sumw += __int_as_float(maxi);\<close>
  \<^verbatim>\<open>acti = (i == k) ? maxi : acti; wi = (wi == maxi) ? 0 : wi;\<close>
\<close>

fun moe_gate_loop ::
  "nat list \<Rightarrow> 32 word list \<times> 32 word list \<times> real \<Rightarrow> 32 word list \<times> 32 word list \<times> real" where
  "moe_gate_loop [] st = st"
| "moe_gate_loop (k # ks) (wi, acti, sumw) =
     (let maxi = warpreduce_maxi wi
      in moe_gate_loop ks
           (map (\<lambda>w. if w = maxi then 0 else w) wi,
            map (\<lambda>i. if i = k then maxi else acti ! i) [0..<32],
            sumw + int_as_float maxi))"

text \<open>
  \<^verbatim>\<open>moe_gate_warp\<close>: \<^verbatim>\<open>acti\<close> starts at \<open>-1\<close>, \<^verbatim>\<open>sumw\<close> at 0; after the loop every
  lane \<open>i < active\<close> asserts \<^verbatim>\<open>acti >= 0\<close> and writes
  \<^verbatim>\<open>moe_experts[i] = acti & 0xff; moe_weights[i] = __int_as_float(acti) / sumw;\<close>
  The result is the written \<^verbatim>\<open>moe_weights\<close> and \<^verbatim>\<open>moe_experts\<close>, slot by slot, or
  \<open>None\<close> when the assertion fails in a lane.
\<close>

definition moe_gate_warp ::
  "(real \<Rightarrow> 32 word) \<Rightarrow> (nat \<Rightarrow> real) \<Rightarrow> nat \<Rightarrow> nat \<Rightarrow> (real list \<times> int list) option" where
  "moe_gate_warp float_as_int weights experts active =
     (case moe_gate_loop [0..<active]
             (gate_wi float_as_int weights experts, replicate 32 (- 1), 0) of
        (wi, acti, sumw) \<Rightarrow>
          if list_all (\<lambda>i. 0 \<le> sint (acti ! i)) [0..<min active 32]
          then Some (map (\<lambda>i. int_as_float (acti ! i) / sumw) [0..<min active 32],
                     map (\<lambda>i. sint (acti ! i AND 0xff)) [0..<min active 32])
          else None)"

text \<open>
  A crude stand-in for the float encoder to run the model on: it knows the pattern of
  \<open>1.0\<close> and flushes every other value to \<open>+0\<close>.
\<close>

definition one_or_zero :: "real \<Rightarrow> 32 word" where
  "one_or_zero x = (if x = 1 then 0x3F800000 else 0)"

text \<open>
  Two gate logits that are far apart: expert 0 at 0 and expert 1 at \<open>-100\<close>.
\<close>

definition far_logits :: "nat \<Rightarrow> real" where
  "far_logits i = (if i = 0 then 0 else - 100)"

section \<open>The feed-forward phases of the cooperative kernel (\<^verbatim>\<open>kernel_fused_coop\<close>)\<close>

text \<open>
  The activations:
  \<^verbatim>\<open>gelu(x) = 0.5f * x * (1.0f + tanhf(0.797885f * (x + 0.044715f * x * x * x)))\<close> and
  \<^verbatim>\<open>silu(x) = x / (1.0f + expf(-x))\<close>.
\<close>

definition gelu :: "real \<Rightarrow> real" where
  "gelu x = 0.5 * x * (1 + tanh (0.797885 * (x + 0.044715 * x * x * x)))"

definition silu :: "real \<Rightarrow> real" where
  "silu x = x / (1 + exp (- x))"

text \<open>
  The buffer \<^verbatim>\<open>state->exp\<close> is read both as \<^verbatim>\<open>float\<close> and, through the cast
  \<^verbatim>\<open>(int*)moe_weights\<close>, as \<^verbatim>\<open>int\<close>; it is a list of 32-bit patterns. \<^verbatim>\<open>prepare_cuda\<close>
  allocates it: with experts, \<^verbatim>\<open>n_experts + n_experts_ac * 2\<close> words that are not
  initialised (their content \<open>fresh\<close> is whatever the allocation holds); without,
  a copy of \<^verbatim>\<open>float expdummy[] = { 1.0f, 0 }\<close>, that is the patterns \<^verbatim>\<open>0x3F800000\<close> and 0.
\<close>

definition prepare_cuda_exp :: "Config \<Rightarrow> 32 word list \<Rightarrow> 32 word list" where
  "prepare_cuda_exp config fresh = (if n_experts config \<noteq> 0 then fresh else [0x3F800000, 0])"

text \<open>
  \<^verbatim>\<open>struct CoopLayer\<close>, the weights of one layer (dequantised, row-major), and the buffers
  of \<^verbatim>\<open>CoopArgs\<close> that the feed-forward phases use, with the device variable
  \<^verbatim>\<open>rmsscale\<close>.
\<close>

record CoopLayer =
  cl_rms_att_weight :: "nat \<Rightarrow> real"
  cl_wq :: "nat \<Rightarrow> real"
  cl_wk :: "nat \<Rightarrow> real"
  cl_wv :: "nat \<Rightarrow> real"
  cl_wo :: "nat \<Rightarrow> real"
  cl_rms_ffn_weight :: "nat \<Rightarrow> real"
  cl_moegate :: "nat \<Rightarrow> real"
  cl_w1 :: "nat \<Rightarrow> real"
  cl_w2 :: "nat \<Rightarrow> real"
  cl_w3 :: "nat \<Rightarrow> real"

record CoopState =
  cs_x :: "nat \<Rightarrow> real"
  cs_xb :: "nat \<Rightarrow> real"
  cs_hb :: "nat \<Rightarrow> real"
  cs_exp :: "32 word list"
  cs_rmsscale :: real

text \<open>
  The loop form \<^verbatim>\<open>for (int j = start; j < n; j += step) body\<close> of the kernels, on the
  state \<open>s\<close> that the body updates. The step is a block size or a number of warps of a
  launched grid, which is positive.
\<close>

function grid_stride :: "(nat \<Rightarrow> 's \<Rightarrow> 's) \<Rightarrow> nat \<Rightarrow> nat \<Rightarrow> nat \<Rightarrow> 's \<Rightarrow> 's" where
  "grid_stride body n step j s =
     (if j < n \<and> 0 < step then grid_stride body n step (j + step) (body j s) else s)"
  by pat_completeness auto

termination
  by (relation "measure (\<lambda>(body, n, step, j, s). n - j)") auto

text \<open>
  Modelled from the spec: \<^verbatim>\<open>blockreduce_sum\<close>, declared in \<^verbatim>\<open>helpers.cuh\<close>, which is not
  among the sources. The specification has "RMSNorm" with the scale
  \<open>1 / sqrt(mean(x\<^sup>2) + eps)\<close>: every thread of the block gets the sum of the threads'
  values.
\<close>

definition blockreduce_sum :: "real list \<Rightarrow> real" where
  "blockreduce_sum vals = sum_list vals"

text \<open>
  The device function \<^verbatim>\<open>rmsnorm(o, x, weight, size, eps)\<close> in a block of \<open>bdim\<close> threads,
  for an output buffer \<^verbatim>\<open>o\<close> apart from \<^verbatim>\<open>x\<close>. Thread \<open>i\<close> runs
  \<^verbatim>\<open>for (int j = i; j < size; j += blockSize) { float v = x[j]; ss += v * v; o[j] = v * weight[j]; }\<close>
  and the function returns \<^verbatim>\<open>rsqrtf(ss / size + eps)\<close> of the block sum: the output is
  scaled by the weight only, "caller is responsible for normalization".
\<close>

definition rmsnorm_thread ::
  "(nat \<Rightarrow> real) \<Rightarrow> (nat \<Rightarrow> real) \<Rightarrow> nat \<Rightarrow> nat \<Rightarrow> nat \<Rightarrow> real \<times> (nat \<Rightarrow> real) \<Rightarrow> real \<times> (nat \<Rightarrow> real)" where
  "rmsnorm_thread x weight sz bdim i =
     grid_stride (\<lambda>j (ss, ob). (ss + x j * x j, ob(j := x j * weight j))) sz bdim i"

definition rmsnorm ::
  "nat \<Rightarrow> (nat \<Rightarrow> real) \<Rightarrow> (nat \<Rightarrow> real) \<Rightarrow> (nat \<Rightarrow> real) \<Rightarrow> nat \<Rightarrow> real \<Rightarrow> (nat \<Rightarrow> real) \<times> real" where
  "rmsnorm bdim ob x weight sz eps =
     (let ob' = fold (\<lambda>i ob. snd (rmsnorm_thread x weight sz bdim i (0, ob))) [0..<bdim] ob;
          ss = blockreduce_sum (map (\<lambda>i. fst (rmsnorm_thread x weight sz bdim i (0, ob))) [0..<bdim])
      in (ob', 1 / sqrt (ss / real sz + eps)))"

text \<open>
  The warps of the cooperative grid: \<open>gdim\<close> blocks of 1024 threads, 32 warps each. The
  warp \<open>warp\<close> of block \<open>bidx\<close> starts its loops at
  \<^verbatim>\<open>io = blockIdx.x * IK + (threadIdx.x / warpSize % IK) + gridDim.x * IK * (threadIdx.x / warpSize / IK)\<close>
  with \<^verbatim>\<open>IK = 2\<close>, and steps by \<^verbatim>\<open>ib = (gridDim.x * blockDim.x) / warpSize\<close>.
\<close>

definition coop_io :: "nat \<Rightarrow> nat \<Rightarrow> nat \<Rightarrow> nat" where
  "coop_io gdim bidx warp = bidx * 2 + warp mod 2 + gdim * 2 * (warp div 2)"

definition coop_ib :: "nat \<Rightarrow> nat" where
  "coop_ib gdim = (gdim * 1024) div 32"

definition coop_warps :: "nat \<Rightarrow> (nat \<times> nat) list" where
  "coop_warps gdim = List.product [0..<gdim] [0..<32]"

text \<open>
  \<^verbatim>\<open>float* moe_weights = args.exp + args.n_experts;\<close>
  \<^verbatim>\<open>int* moe_experts = (int*)moe_weights + args.n_experts_ac;\<close>
\<close>

definition moe_weights :: "CoopArgs \<Rightarrow> 32 word list \<Rightarrow> nat \<Rightarrow> real" where
  "moe_weights args e k = int_as_float (e ! (nat (ca_n_experts args) + k))"

definition moe_experts :: "CoopArgs \<Rightarrow> 32 word list \<Rightarrow> nat \<Rightarrow> int" where
  "moe_experts args e k = sint (e ! (nat (ca_n_experts args) + nat (ca_n_experts_ac args) + k))"

text \<open>
  The phase "post-attention rmsnorm and moegate", run by block 0. Thread 0 stores the
  scale in \<^verbatim>\<open>rmsscale\<close>. With experts (\<^verbatim>\<open>if (args.n_experts)\<close>), warp \<open>j < n_experts\<close>
  stores the gate logit \<^verbatim>\<open>args.exp[j] = matmul_warppar(args.xb, L->moegate, j, dim) * rmsscale\<close>
  and, after \<^verbatim>\<open>__syncthreads()\<close>, the first warp runs \<^verbatim>\<open>moe_gate_warp\<close> on
  \<^verbatim>\<open>args.exp\<close>, which writes \<^verbatim>\<open>moe_weights\<close> and \<^verbatim>\<open>moe_experts\<close>. The logits are
  taken with the scale of this phase (the source has no barrier between the store of
  thread 0 and the reads of the other warps). Without experts the buffer \<^verbatim>\<open>exp\<close> is
  left as it is.
\<close>

definition coop_ffn_norm ::
  "(real \<Rightarrow> 32 word) \<Rightarrow> CoopArgs \<Rightarrow> CoopLayer \<Rightarrow> CoopState \<Rightarrow> error + CoopState" where
  "coop_ffn_norm float_as_int args L s =
     (let dim = nat (ca_dim args);
          ne = nat (ca_n_experts args);
          ac = nat (ca_n_experts_ac args);
          (xb, scale) = rmsnorm 1024 (cs_xb s) (cs_x s) (cl_rms_ffn_weight L) dim (ca_norm_eps args);
          s1 = s\<lparr>cs_xb := xb, cs_rmsscale := scale\<rparr>
      in if ca_n_experts args \<noteq> 0
         then (let e1 = fold (\<lambda>j e. if j < ne
                                     then e[j := float_as_int (matmul_warppar xb (cl_moegate L) j dim * scale)]
                                     else e) [0..<32] (cs_exp s)
               in case moe_gate_warp float_as_int (\<lambda>i. int_as_float (e1 ! i)) ne ac of
                    None \<Rightarrow> Inl Assertion_failed
                  | Some (ws, es) \<Rightarrow>
                      Inr (s1\<lparr>cs_exp := fold (\<lambda>i e. e[ne + ac + i := word_of_int (es ! i),
                                                        ne + i := float_as_int (ws ! i)])
                                              [0..<length ws] e1\<rparr>))
         else Inr s1)"

text \<open>
  The phase \<^verbatim>\<open>F.silu(self.w1(x)) * self.w3(x)\<close>: for its indices \<open>j\<close> below
  \<^verbatim>\<open>hidden_dim * args.n_experts_ac\<close> a warp computes
  \<^verbatim>\<open>int je = (j % hidden_dim) + moe_experts[j / hidden_dim] * hidden_dim;\<close>
  \<^verbatim>\<open>float v1 = matmul_warppar(args.xb, L->w1, je, dim) * rmsscale;\<close> (and \<^verbatim>\<open>v3\<close> with
  \<^verbatim>\<open>w3\<close>), \<^verbatim>\<open>float val = (args.act_gelu ? gelu(v1) : silu(v1)) * v3;\<close> and its first lane
  stores \<^verbatim>\<open>args.hb[j] = val\<close>. The value depends on the state before the phase only.
\<close>

definition ffn13_val :: "CoopArgs \<Rightarrow> CoopLayer \<Rightarrow> CoopState \<Rightarrow> nat \<Rightarrow> real" where
  "ffn13_val args L s j =
     (let dim = nat (ca_dim args);
          hidden_dim = nat (ca_hidden_dim args);
          je = nat (int (j mod hidden_dim) + moe_experts args (cs_exp s) (j div hidden_dim) * int hidden_dim);
          v1 = matmul_warppar (cs_xb s) (cl_w1 L) je dim * cs_rmsscale s;
          v3 = matmul_warppar (cs_xb s) (cl_w3 L) je dim * cs_rmsscale s
      in (if ca_act_gelu args then gelu v1 else silu v1) * v3)"

definition coop_ffn13 :: "nat \<Rightarrow> CoopArgs \<Rightarrow> CoopLayer \<Rightarrow> CoopState \<Rightarrow> CoopState" where
  "coop_ffn13 gdim args L s =
     s\<lparr>cs_hb := fold (\<lambda>(bidx, warp).
                        grid_stride (\<lambda>j hb. hb(j := ffn13_val args L s j))
                          (nat (ca_hidden_dim args * ca_n_experts_ac args))
                          (coop_ib gdim) (coop_io gdim bidx warp))
                     (coop_warps gdim) (cs_hb s)\<rparr>"

text \<open>
  The phase \<^verbatim>\<open>self.w2(...) + pre-rmsnorm residual\<close>: for its indices \<open>j\<close> below
  \<^verbatim>\<open>dim * args.n_experts_ac\<close> a warp computes
  \<^verbatim>\<open>int je = (j % dim) + moe_experts[j / dim] * dim;\<close>
  \<^verbatim>\<open>float val = matmul_warppar(args.hb + (j / dim) * hidden_dim, L->w2, je, hidden_dim);\<close>
  and its first lane runs \<^verbatim>\<open>atomicAdd(&args.x[j % dim], val * moe_weights[j / dim])\<close>.
  The additions of the warps are taken in the order of the blocks and warps; in exact
  arithmetic the order does not matter.
\<close>

definition ffn2_val :: "CoopArgs \<Rightarrow> CoopLayer \<Rightarrow> CoopState \<Rightarrow> nat \<Rightarrow> real" where
  "ffn2_val args L s j =
     (let dim = nat (ca_dim args);
          hidden_dim = nat (ca_hidden_dim args);
          je = nat (int (j mod dim) + moe_experts args (cs_exp s) (j div dim) * int dim);
          val = matmul_warppar (\<lambda>i. cs_hb s (j div dim * hidden_dim + i)) (cl_w2 L) je hidden_dim
      in val * moe_weights args (cs_exp s) (j div dim))"

definition coop_ffn2 :: "nat \<Rightarrow> CoopArgs \<Rightarrow> CoopLayer \<Rightarrow> CoopState \<Rightarrow> CoopState" where
  "coop_ffn2 gdim args L s =
     s\<lparr>cs_x := fold (\<lambda>(bidx, warp).
                       grid_stride (\<lambda>j x. x(j mod nat (ca_dim args)
                                             := x (j mod nat (ca_dim args)) + ffn2_val args L s j))
                         (nat (ca_dim args * ca_n_experts_ac args))
                         (coop_ib gdim) (coop_io gdim bidx warp))
                    (coop_warps gdim) (cs_x s)\<rparr>"

text \<open>The three feed-forward phases of one layer, with the grid barriers between them.\<close>

definition coop_ffn ::
  "(real \<Rightarrow> 32 word) \<Rightarrow> nat \<Rightarrow> CoopArgs \<Rightarrow> CoopLayer \<Rightarrow> CoopState \<Rightarrow> error + CoopState" where
  "coop_ffn float_as_int gdim args L s =
     (case coop_ffn_norm float_as_int args L s of
        Inl e \<Rightarrow> Inl e
      | Inr s1 \<Rightarrow> Inr (coop_ffn2 gdim args L (coop_ffn13 gdim args L s1)))"

text \<open>
  Following the specification, not the source: the standard gated feed-forward block
  \<open>x += W2 (act(W1 xb) * (W3 xb))\<close> on the RMS-normalised input
  \<open>xb = weight * x / sqrt(mean(x\<^sup>2) + eps)\<close>.
\<close>

definition rms_normalised :: "(nat \<Rightarrow> real) \<Rightarrow> (nat \<Rightarrow> real) \<Rightarrow> nat \<Rightarrow> real \<Rightarrow> nat \<Rightarrow> real" where
  "rms_normalised x weight n eps i = weight i * x i / sqrt ((\<Sum>j<n. x j * x j) / real n + eps)"

definition gated_ffn ::
  "(real \<Rightarrow> real) \<Rightarrow> (nat \<Rightarrow> real) \<Rightarrow> (nat \<Rightarrow> real) \<Rightarrow> (nat \<Rightarrow> real) \<Rightarrow> nat \<Rightarrow> nat
     \<Rightarrow> (nat \<Rightarrow> real) \<Rightarrow> (nat \<Rightarrow> real) \<Rightarrow> nat \<Rightarrow> real" where
  "gated_ffn act w1 w2 w3 n h xb x j =
     x j + (\<Sum>k<h. w2 (j * h + k) * (act (\<Sum>i<n. w1 (k * n + i) * xb i) * (\<Sum>i<n. w3 (k * n + i) * xb i)))"

text \<open>A layer and a state to run the feed-forward phases on: every weight and every entry of
  \<^verbatim>\<open>x\<close> is 1, the other buffers are cleared, and \<^verbatim>\<open>exp\<close> is the buffer of
  \<^verbatim>\<open>prepare_cuda\<close> for the configuration.\<close>

definition ones_layer :: CoopLayer where
  "ones_layer = \<lparr> cl_rms_att_weight = (\<lambda>i. 1), cl_wq = (\<lambda>i. 1), cl_wk = (\<lambda>i. 1),
     cl_wv = (\<lambda>i. 1), cl_wo = (\<lambda>i. 1), cl_rms_ffn_weight = (\<lambda>i. 1), cl_moegate = (\<lambda>i. 1),
     cl_w1 = (\<lambda>i. 1), cl_w2 = (\<lambda>i. 1), cl_w3 = (\<lambda>i. 1) \<rparr>"

definition ones_state :: "Config \<Rightarrow> CoopState" where
  "ones_state config = \<lparr> cs_x = (\<lambda>i. 1), cs_xb = (\<lambda>i. 0), cs_hb = (\<lambda>i. 0),
     cs_exp = prepare_cuda_exp config [], cs_rmsscale = 0 \<rparr>"

chapter \<open>Properties\<close>

section \<open>The KV window\<close>

lemma smod_nonneg: "0 \<le> a \<Longrightarrow> 0 < b \<Longrightarrow> a smod b = a mod (b::int)"
  by (simp add: signed_modulo_int_def sgn_if)

lemma c_int_range: "INT_MIN \<le> x \<Longrightarrow> x \<le> INT_MAX \<Longrightarrow> c_int x = Some x"
  by (simp add: c_int_def)

lemma kv_pos_low:
  assumes "0 \<le> pos" "pos < seq_len p" "seq_len p \<le> INT_MAX"
  shows "kv_pos p pos = Some pos"
  using assms
  by (simp add: kv_pos_def kv_sink_def c_int_def c_mod_def smod_nonneg INT_MIN_def INT_MAX_def)

lemma kv_pos_wrapped:
  assumes "2 < seq_len p" "seq_len p \<le> pos" "pos \<le> INT_MAX"
  shows "\<exists>k. kv_pos p pos = Some k \<and> 2 \<le> k \<and> k < seq_len p \<and> k = 2 + (pos - 2) mod (seq_len p - 2)"
proof -
  have r: "0 \<le> (pos - 2) mod (seq_len p - 2)" "(pos - 2) mod (seq_len p - 2) < seq_len p - 2"
    using assms by simp_all
  have "c_mod (pos - 2) (seq_len p - 2) = Some ((pos - 2) mod (seq_len p - 2))"
    using assms by (simp add: c_mod_def smod_nonneg)
  moreover have "c_int (pos - 2) = Some (pos - 2)" "c_int (seq_len p - 2) = Some (seq_len p - 2)"
    "c_int (2 + (pos - 2) mod (seq_len p - 2)) = Some (2 + (pos - 2) mod (seq_len p - 2))"
    using assms r by (simp_all add: c_int_def INT_MIN_def INT_MAX_def)
  ultimately have "kv_pos p pos = Some (2 + (pos - 2) mod (seq_len p - 2))"
    using assms by (simp add: kv_pos_def kv_sink_def KV_SINKS_def)
  with r show ?thesis by simp
qed

lemma kv_pos_defined:
  assumes "2 < seq_len p" "seq_len p \<le> INT_MAX" "0 \<le> pos" "pos \<le> INT_MAX"
  shows "\<exists>k. kv_pos p pos = Some k"
proof (cases "pos < seq_len p")
  case True
  then show ?thesis using kv_pos_low [OF assms(3) True assms(2)] by simp
next
  case False
  then show ?thesis using kv_pos_wrapped [of p pos] assms by auto
qed

text \<open>
  Claim C1, as amended. For a call with \<open>0 \<le> pos\<close> (\<open>pos\<close> and \<open>seq_len\<close> being values of
  \<^verbatim>\<open>int\<close>): the physical write index \<open>kv_pos\<close> is \<open>pos\<close> while \<open>pos < seq_len\<close>; on a
  configuration with more than the two sink slots (\<open>2 < seq_len\<close>) it is
  \<open>2 + (pos - 2) mod (seq_len - 2)\<close> from \<open>pos = seq_len\<close> on, and then lies in
  \<open>[2, seq_len)\<close>, so it is never one of the sink positions 0 and 1;
  \<open>kv_len = min (pos + 1) seq_len\<close>.
\<close>

theorem kv_window_wrap:
  assumes "0 \<le> pos" and "pos \<le> INT_MAX" and "seq_len p \<le> INT_MAX"
  shows "(pos < seq_len p \<longrightarrow> kv_pos p pos = Some pos)
       \<and> (2 < seq_len p \<and> seq_len p \<le> pos \<longrightarrow>
            kv_pos p pos = Some (2 + (pos - 2) mod (seq_len p - 2)))
       \<and> kv_len p pos = min (pos + 1) (seq_len p)
       \<and> (2 < seq_len p \<and> seq_len p \<le> pos \<longrightarrow>
            (\<exists>k. kv_pos p pos = Some k \<and> k \<noteq> 0 \<and> k \<noteq> 1 \<and> 2 \<le> k \<and> k < seq_len p))"
proof -
  have a: "pos < seq_len p \<Longrightarrow> kv_pos p pos = Some pos"
    using assms by (intro kv_pos_low)
  have b: "2 < seq_len p \<Longrightarrow> seq_len p \<le> pos \<Longrightarrow>
             \<exists>k. kv_pos p pos = Some k \<and> 2 \<le> k \<and> k < seq_len p \<and> k = 2 + (pos - 2) mod (seq_len p - 2)"
    using assms by (intro kv_pos_wrapped)
  have c: "kv_len p pos = min (pos + 1) (seq_len p)"
    by (simp add: kv_len_def min_def)
  from a b c show ?thesis by fastforce
qed

text \<open>
  The wrap boundary of the specification's third scenario: with \<open>seq_len = 8\<close>, position 9
  is written to slot 3 and the window stays 8 long; position 5 is written to slot 5.
\<close>

theorem kv_window_wrap_witness:
  "(0::int) \<le> 9 \<and> 9 \<le> INT_MAX \<and> seq_len tiny_config \<le> INT_MAX \<and> 2 < seq_len tiny_config
   \<and> kv_pos tiny_config 9 = Some 3 \<and> kv_len tiny_config 9 = 8
   \<and> kv_pos tiny_config 5 = Some 5 \<and> kv_len tiny_config 5 = 6"
proof -
  have h: "(0::int) \<le> 9" "9 \<le> INT_MAX" "seq_len tiny_config \<le> INT_MAX"
    "(0::int) \<le> 5" "5 \<le> INT_MAX"
    by (simp_all add: tiny_config_def INT_MAX_def)
  from kv_window_wrap [OF h(1,2,3)] kv_window_wrap [OF h(4,5,3)] h
  show ?thesis by (simp add: tiny_config_def)
qed

text \<open>
  The claim as first stated, for every call, fails below 0 and on a window of two slots.
  With \<open>seq_len = 8\<close> the position \<open>-9\<close> is below \<open>seq_len\<close> and the write index is
  \<open>-9 % 8 = -1\<close>, not the position; no assertion stops the call, which with the flag set
  returns \<^verbatim>\<open>NULL\<close> after the QKV kernels of both layers were launched with that index.
  With \<open>seq_len = 2\<close> the position 2 divides by \<open>seq_len - 2 = 0\<close>.
\<close>

theorem kv_window_counterexample:
  "(- 9 :: int) < seq_len tiny_config
   \<and> kv_pos tiny_config (- 9) = Some (- 1)
   \<and> forward tiny_config 0 (- 9) 1 =
       Inr ([K_embed 0, K_rmsnorm 0, K_matmul_rope_qkv 0 (- 9) (- 1),
             K_attn_score 0 (- 8), K_attn_softmax 0 (- 8), K_attn_mix 0 (- 8), K_matmul_attn 0,
             K_rmsnorm 0, K_matmul_ffn13_silu 0, K_matmul_ffn2 0,
             K_rmsnorm 1, K_matmul_rope_qkv 1 (- 9) (- 1)], NULL)
   \<and> seq_len (tiny_config\<lparr>seq_len := 2\<rparr>) \<le> 2
   \<and> kv_pos (tiny_config\<lparr>seq_len := 2\<rparr>) 2 = None"
  by code_simp
section \<open>The drivers\<close>

lemma update_kv_only_bit: "update_kv_only flags \<longleftrightarrow> bit flags 0"
  by (simp add: update_kv_only_def FF_UPDATE_KV_ONLY_def and_one_eq
      word_eq_iff_unsigned [where ?'a = nat] bit_0 mod_2_eq_odd)

text \<open>
  With the flag set, a layer list that ends in the last layer runs its other layers in
  full and ends with the last layer's norm and QKV kernel.
\<close>

lemma forward_layers_break:
  assumes "update_kv_only flags" and "\<forall>l \<in> set ls. int l \<noteq> n_layers p - 1"
    and "int m = n_layers p - 1"
  shows "forward_layers p pos kvp flags (ls @ [m]) =
           (case forward_layers p pos kvp 0 ls of
              Inl e \<Rightarrow> Inl e
            | Inr body \<Rightarrow> Inr (body @ qkv_launches p pos kvp m))"
  using assms
proof (induction ls)
  case Nil
  then show ?case by simp
next
  case (Cons l ls)
  then show ?case
    by (simp add: update_kv_only_def split: sum.splits)
qed

lemma forward_layers_error_pos:
  "forward_layers p pos kvp flags ls = Inl e \<longleftrightarrow> forward_layers p pos' kvp' flags ls = Inl e"
  by (induction ls) (auto simp: qkv_launches_def split: sum.splits)

lemma forward_layers_no_output:
  "forward_layers p pos kvp flags ls = Inr tr \<Longrightarrow>
     K_matmul_cls \<notin> set tr \<and> K_final_rmsnorm \<notin> set tr \<and> K_final_layernorm \<notin> set tr"
proof (induction ls arbitrary: tr)
  case Nil
  then show ?case by simp
next
  case (Cons l ls)
  then show ?case
    by (auto simp: qkv_launches_def attn_launches_def ffn_launches_def att_norm_def
        split: sum.splits if_splits)
qed

lemma upt_snoc_last: "0 < n \<Longrightarrow> [0..<n] = [0..<n - 1] @ [n - 1]"
  by (cases n) simp_all

lemma forward_Inr:
  assumes "forward p token pos flags = Inr (tr, r)"
  shows "\<exists>kvp ls. kv_pos p pos = Some kvp
           \<and> forward_layers p pos kvp flags [0..<nat (n_layers p)] = Inr ls
           \<and> tr = K_embed token # sink_launches p pos @ ls
                    @ (if update_kv_only flags then [] else [final_norm p, K_matmul_cls])
           \<and> r = (if update_kv_only flags then NULL else Logits)"
  using assms
  by (auto simp: forward_def Let_def split: option.splits if_splits sum.splits Option.bind_splits)

lemma forwardcoop_Inr:
  assumes "forwardcoop coopsms p token pos flags = Inr (tr, r)"
  shows "\<exists>kvp. kv_pos p pos = Some kvp
           \<and> tr = K_embed token # sink_launches p pos @ [K_fused_coop coopsms (coop_args p pos kvp)]
                    @ (if update_kv_only flags then [] else [K_output coopsms])
           \<and> r = (if update_kv_only flags then NULL else Logits)"
  using assms
  by (auto simp: forwardcoop_def Let_def split: option.splits if_splits sum.splits Option.bind_splits)

lemma coop_runs_every_layer:
  "\<forall>l < nat (n_layers p). set (coop_layer_phases (coop_args p pos kvp) l)
                          \<subseteq> set (kernel_fused_coop (coop_args p pos kvp))"
  unfolding kernel_fused_coop_def
  by (auto simp: coop_args_def simp del: coop_layer_phases.simps)

lemma tiny_checks:
  "arch tiny_config = LlamaLike" "warp_aligned tiny_config" "vocab_size tiny_config smod 32 = 0"
  "vocab_size tiny_config = 32" "c_int (head_dim tiny_config * n_kv_heads tiny_config) = Some 32"
  by (simp_all add: tiny_config_def warp_aligned_def signed_modulo_int_def c_int_def
      INT_MIN_def INT_MAX_def)

lemma tiny_coop_accepted:
  "launches_accepted tiny_config [K_embed t, K_rotate_sink 2, K_fused_coop 84 a] = Some True"
  "launches_accepted tiny_config [K_embed t, K_rotate_sink 2, K_fused_coop 84 a, K_output 84] = Some True"
  "launches_accepted tiny_config [K_embed t, K_fused_coop 84 a] = Some True"
  "launches_accepted tiny_config [K_embed t, K_fused_coop 84 a, K_output 84] = Some True"
  "launch_valid ((84, 1), (1024, 1))"
  by (simp_all add: launches_accepted_def launch_valid_def c_int_def INT_MIN_def INT_MAX_def
      signed_divide_int_def tiny_config_def)

lemma tiny_sinks:
  "sink_launches tiny_config 9 = [K_rotate_sink 2]" "sink_launches tiny_config 0 = []"
  "sink_launches tiny_config (- 1) = []"
  by (simp_all add: sink_launches_def kv_sink_def tiny_config_def KV_SINKS_def)

lemma flag_values: "update_kv_only 1" "\<not> update_kv_only 0"
  by (simp_all add: update_kv_only_def FF_UPDATE_KV_ONLY_def)

text \<open>
  Claim C5, as amended. A call of either driver that returns (no assertion fails, no
  launch is rejected on the path that checks) returns \<^verbatim>\<open>NULL\<close> when \<^verbatim>\<open>UPDATE_KV_ONLY\<close>
  (bit 0 of the flags) is set and the logits buffer when it is clear. With the flag set
  the multi-kernel driver launches neither a final norm nor a classifier: its launches are
  the embedding, the sink rotation if any, the layers before the last in full, and of the
  last layer only its norm and the fused QKV kernel that writes the KV cache. With the flag
  clear its launches end with the final norm and the classifier. The cooperative driver
  launches the single fused kernel with arguments that carry no flag, and the kernel runs
  every phase of every layer, the last included, whatever the flag; only
  \<^verbatim>\<open>kernel_output\<close> depends on the flag.
\<close>

theorem update_kv_only_drivers:
  "(forward p token pos flags = Inr (tr, r) \<longrightarrow>
      (bit flags 0 \<longrightarrow>
         r = NULL \<and> K_matmul_cls \<notin> set tr \<and> final_norm p \<notin> set tr
         \<and> (0 < n_layers p \<longrightarrow>
              (\<exists>kvp body. kv_pos p pos = Some kvp
                 \<and> forward_layers p pos kvp 0 [0..<nat (n_layers p) - 1] = Inr body
                 \<and> tr = K_embed token # sink_launches p pos @ body
                          @ qkv_launches p pos kvp (nat (n_layers p) - 1))))
    \<and> (\<not> bit flags 0 \<longrightarrow>
         r = Logits
         \<and> (\<exists>kvp ls. kv_pos p pos = Some kvp
               \<and> forward_layers p pos kvp flags [0..<nat (n_layers p)] = Inr ls
               \<and> tr = K_embed token # sink_launches p pos @ ls @ [final_norm p, K_matmul_cls])))
   \<and> (forwardcoop coopsms p token pos flags = Inr (tr', r') \<longrightarrow>
        (\<exists>kvp. kv_pos p pos = Some kvp
           \<and> (\<forall>l < nat (n_layers p). set (coop_layer_phases (coop_args p pos kvp) l)
                   \<subseteq> set (kernel_fused_coop (coop_args p pos kvp)))
           \<and> (bit flags 0 \<longrightarrow>
                r' = NULL
                \<and> tr' = K_embed token # sink_launches p pos @ [K_fused_coop coopsms (coop_args p pos kvp)])
           \<and> (\<not> bit flags 0 \<longrightarrow>
                r' = Logits
                \<and> tr' = K_embed token # sink_launches p pos
                          @ [K_fused_coop coopsms (coop_args p pos kvp), K_output coopsms])))"
proof -
  have a: "r = NULL \<and> K_matmul_cls \<notin> set tr \<and> final_norm p \<notin> set tr"
    if u: "bit flags 0" and f: "forward p token pos flags = Inr (tr, r)"
  proof -
    from forward_Inr [OF f] u obtain kvp ls where
      ls: "forward_layers p pos kvp flags [0..<nat (n_layers p)] = Inr ls"
      and tr: "tr = K_embed token # sink_launches p pos @ ls" and r: "r = NULL"
      by (auto simp: update_kv_only_bit)
    from forward_layers_no_output [OF ls] tr r show ?thesis
      by (auto simp: sink_launches_def final_norm_def)
  qed
  have b: "\<exists>kvp body. kv_pos p pos = Some kvp
               \<and> forward_layers p pos kvp 0 [0..<nat (n_layers p) - 1] = Inr body
               \<and> tr = K_embed token # sink_launches p pos @ body
                        @ qkv_launches p pos kvp (nat (n_layers p) - 1)"
    if ub: "bit flags 0" and pos: "0 < n_layers p" and f: "forward p token pos flags = Inr (tr, r)"
  proof -
    have u: "update_kv_only flags" using ub by (simp add: update_kv_only_bit)
    from forward_Inr [OF f] u obtain kvp ls where k: "kv_pos p pos = Some kvp"
      and ls: "forward_layers p pos kvp flags [0..<nat (n_layers p)] = Inr ls"
      and tr: "tr = K_embed token # sink_launches p pos @ ls"
      by auto
    have split: "[0..<nat (n_layers p)] = [0..<nat (n_layers p) - 1] @ [nat (n_layers p) - 1]"
      using pos by (intro upt_snoc_last) simp
    have "forward_layers p pos kvp flags ([0..<nat (n_layers p) - 1] @ [nat (n_layers p) - 1]) =
           (case forward_layers p pos kvp 0 [0..<nat (n_layers p) - 1] of
              Inl e \<Rightarrow> Inl e
            | Inr body \<Rightarrow> Inr (body @ qkv_launches p pos kvp (nat (n_layers p) - 1)))"
      using pos by (intro forward_layers_break [OF u]) auto
    with ls split obtain body where
      "forward_layers p pos kvp 0 [0..<nat (n_layers p) - 1] = Inr body"
      and "ls = body @ qkv_launches p pos kvp (nat (n_layers p) - 1)"
      by (auto split: sum.splits)
    with k tr show ?thesis by auto
  qed
  have c: "r = Logits
         \<and> (\<exists>kvp ls. kv_pos p pos = Some kvp
               \<and> forward_layers p pos kvp flags [0..<nat (n_layers p)] = Inr ls
               \<and> tr = K_embed token # sink_launches p pos @ ls @ [final_norm p, K_matmul_cls])"
    if "\<not> bit flags 0" and f: "forward p token pos flags = Inr (tr, r)"
    using forward_Inr [OF f] that(1) by (auto simp: update_kv_only_bit)
  have d: "\<exists>kvp. kv_pos p pos = Some kvp
           \<and> (\<forall>l < nat (n_layers p). set (coop_layer_phases (coop_args p pos kvp) l)
                   \<subseteq> set (kernel_fused_coop (coop_args p pos kvp)))
           \<and> (bit flags 0 \<longrightarrow>
                r' = NULL
                \<and> tr' = K_embed token # sink_launches p pos @ [K_fused_coop coopsms (coop_args p pos kvp)])
           \<and> (\<not> bit flags 0 \<longrightarrow>
                r' = Logits
                \<and> tr' = K_embed token # sink_launches p pos
                          @ [K_fused_coop coopsms (coop_args p pos kvp), K_output coopsms])"
    if f: "forwardcoop coopsms p token pos flags = Inr (tr', r')"
  proof -
    from forwardcoop_Inr [OF f] obtain kvp where k: "kv_pos p pos = Some kvp"
      and tr: "tr' = K_embed token # sink_launches p pos @ [K_fused_coop coopsms (coop_args p pos kvp)]
                    @ (if update_kv_only flags then [] else [K_output coopsms])"
      and r: "r' = (if update_kv_only flags then NULL else Logits)"
      by blast
    show ?thesis
      using k tr r coop_runs_every_layer [of p pos kvp]
      by (intro exI [of _ kvp]) (simp add: update_kv_only_bit del: coop_layer_phases.simps)
  qed
  from a b c d show ?thesis by blast
qed

text \<open>
  The two-layer model at position 9 with 84 blocks for the cooperative kernel: with the
  flag set and with the flag clear.
\<close>

theorem update_kv_only_drivers_witness:
  "forward tiny_config 0 9 1 =
       Inr ([K_embed 0, K_rotate_sink 2, K_rmsnorm 0, K_matmul_rope_qkv 0 9 3,
             K_attn_score 0 8, K_attn_softmax 0 8, K_attn_mix 0 8, K_matmul_attn 0,
             K_rmsnorm 0, K_matmul_ffn13_silu 0, K_matmul_ffn2 0,
             K_rmsnorm 1, K_matmul_rope_qkv 1 9 3], NULL)
   \<and> forward tiny_config 0 9 0 =
       Inr ([K_embed 0, K_rotate_sink 2, K_rmsnorm 0, K_matmul_rope_qkv 0 9 3,
             K_attn_score 0 8, K_attn_softmax 0 8, K_attn_mix 0 8, K_matmul_attn 0,
             K_rmsnorm 0, K_matmul_ffn13_silu 0, K_matmul_ffn2 0,
             K_rmsnorm 1, K_matmul_rope_qkv 1 9 3,
             K_attn_score 1 8, K_attn_softmax 1 8, K_attn_mix 1 8, K_matmul_attn 1,
             K_rmsnorm 1, K_matmul_ffn13_silu 1, K_matmul_ffn2 1,
             K_final_rmsnorm, K_matmul_cls], Logits)
   \<and> forwardcoop 84 tiny_config 0 9 1 =
       Inr ([K_embed 0, K_rotate_sink 2, K_fused_coop 84 (coop_args tiny_config 9 3)], NULL)
   \<and> forwardcoop 84 tiny_config 0 9 0 =
       Inr ([K_embed 0, K_rotate_sink 2, K_fused_coop 84 (coop_args tiny_config 9 3), K_output 84],
            Logits)
   \<and> bit (1 :: 32 word) 0 \<and> \<not> bit (0 :: 32 word) 0"
proof -
  have f1: "forward tiny_config 0 9 1 =
       Inr ([K_embed 0, K_rotate_sink 2, K_rmsnorm 0, K_matmul_rope_qkv 0 9 3,
             K_attn_score 0 8, K_attn_softmax 0 8, K_attn_mix 0 8, K_matmul_attn 0,
             K_rmsnorm 0, K_matmul_ffn13_silu 0, K_matmul_ffn2 0,
             K_rmsnorm 1, K_matmul_rope_qkv 1 9 3], NULL)"
    by code_simp
  have f0: "forward tiny_config 0 9 0 =
       Inr ([K_embed 0, K_rotate_sink 2, K_rmsnorm 0, K_matmul_rope_qkv 0 9 3,
             K_attn_score 0 8, K_attn_softmax 0 8, K_attn_mix 0 8, K_matmul_attn 0,
             K_rmsnorm 0, K_matmul_ffn13_silu 0, K_matmul_ffn2 0,
             K_rmsnorm 1, K_matmul_rope_qkv 1 9 3,
             K_attn_score 1 8, K_attn_softmax 1 8, K_attn_mix 1 8, K_matmul_attn 1,
             K_rmsnorm 1, K_matmul_ffn13_silu 1, K_matmul_ffn2 1,
             K_final_rmsnorm, K_matmul_cls], Logits)"
    by code_simp
  have k: "kv_pos tiny_config 9 = Some 3" by code_simp
  have ok: "\<exists>tr r. forwardcoop 84 tiny_config 0 9 1 = Inr (tr, r)"
    "\<exists>tr r. forwardcoop 84 tiny_config 0 9 0 = Inr (tr, r)"
    by (simp_all add: forwardcoop_def k tiny_checks tiny_coop_accepted tiny_sinks flag_values)
  from ok(1) obtain tr1 r1 where g1: "forwardcoop 84 tiny_config 0 9 1 = Inr (tr1, r1)" by blast
  from ok(2) obtain tr0 r0 where g0: "forwardcoop 84 tiny_config 0 9 0 = Inr (tr0, r0)" by blast
  note s = tiny_sinks(1)
  from update_kv_only_drivers [of tiny_config 0 9 1 "[]" NULL 84 tr1 r1]
       update_kv_only_drivers [of tiny_config 0 9 0 "[]" NULL 84 tr0 r0] g1 g0 k s f1 f0
  show ?thesis by simp
qed

text \<open>
  The claim as first stated fails on the cooperative driver: on the two-layer model, with
  the flag set, the fused kernel still runs attention scoring and the FFN down-projection
  of the last layer (layer 1).
\<close>

theorem update_kv_only_coop_counterexample:
  "bit (1 :: 32 word) 0
   \<and> forwardcoop 84 tiny_config 0 0 1 =
       Inr ([K_embed 0, K_fused_coop 84 (coop_args tiny_config 0 0)], NULL)
   \<and> n_layers tiny_config - 1 = 1
   \<and> P_attn_score 1 \<in> set (kernel_fused_coop (coop_args tiny_config 0 0))
   \<and> P_ffn2 1 \<in> set (kernel_fused_coop (coop_args tiny_config 0 0))"
proof -
  have "kv_pos tiny_config 0 = Some 0" by code_simp
  then have "forwardcoop 84 tiny_config 0 0 1 =
      Inr ([K_embed 0, K_fused_coop 84 (coop_args tiny_config 0 0)], NULL)"
    by (simp add: forwardcoop_def tiny_checks tiny_coop_accepted tiny_sinks flag_values)
  moreover have "nat (ca_n_layers (coop_args tiny_config 0 0)) = Suc (Suc 0)"
    by (simp add: coop_args_def tiny_config_def)
  then have "P_attn_score 1 \<in> set (kernel_fused_coop (coop_args tiny_config 0 0))"
    "P_ffn2 1 \<in> set (kernel_fused_coop (coop_args tiny_config 0 0))"
    by (simp_all add: kernel_fused_coop_def)
  ultimately show ?thesis by (simp add: tiny_config_def)
qed

lemma forward_token_check:
  "vocab_size p \<le> token \<Longrightarrow>
     forward p token pos flags = Inl Assertion_failed
   \<or> forward p token pos flags = Inl Undefined_behaviour"
  by (simp add: forward_def split: option.splits)

lemma forwardcoop_token_check:
  "vocab_size p \<le> token \<Longrightarrow>
     forwardcoop coopsms p token pos flags = Inl Assertion_failed
   \<or> forwardcoop coopsms p token pos flags = Inl Undefined_behaviour"
  by (simp add: forwardcoop_def split: option.splits)

lemma forward_assert_pos:
  assumes "kv_pos p pos = Some k" "kv_pos p pos' = Some k'"
  shows "forward p token pos flags = Inl Assertion_failed
         \<longleftrightarrow> forward p token pos' flags = Inl Assertion_failed"
proof -
  have eq: "forward_layers p pos k flags ls = Inl e
            \<longleftrightarrow> forward_layers p pos' k' flags ls = Inl e" for ls e
    by (rule forward_layers_error_pos)
  show ?thesis
    using assms eq [of "[0..<nat (n_layers p)]" Assertion_failed]
    by (cases "forward_layers p pos k flags [0..<nat (n_layers p)]";
        cases "forward_layers p pos' k' flags [0..<nat (n_layers p)]")
       (auto simp: forward_def Let_def split: option.splits Option.bind_splits)
qed

lemma forwardcoop_assert_pos:
  assumes "kv_pos p pos = Some k" "kv_pos p pos' = Some k'"
  shows "forwardcoop coopsms p token pos flags = Inl Assertion_failed
         \<longleftrightarrow> forwardcoop coopsms p token pos' flags = Inl Assertion_failed"
  using assms
  by (auto simp: forwardcoop_def Let_def split: option.splits Option.bind_splits)

text \<open>
  Claim C9, as amended. In both drivers a token with \<open>token \<ge> vocab_size\<close> never gets
  past the assertions: the call ends in a failed assertion (or in undefined behaviour of
  the arithmetic before it) and launches nothing. The position is not asserted on: for
  every two positions for which the window arithmetic is defined, negative ones included,
  whether a call fails an assertion is the same.
\<close>

theorem argument_assertions:
  "(vocab_size p \<le> token \<longrightarrow>
       (forward p token pos flags = Inl Assertion_failed
          \<or> forward p token pos flags = Inl Undefined_behaviour)
     \<and> (forwardcoop coopsms p token pos flags = Inl Assertion_failed
          \<or> forwardcoop coopsms p token pos flags = Inl Undefined_behaviour))
   \<and> (kv_pos p pos \<noteq> None \<and> kv_pos p pos' \<noteq> None \<longrightarrow>
       (forward p token pos flags = Inl Assertion_failed
          \<longleftrightarrow> forward p token pos' flags = Inl Assertion_failed)
     \<and> (forwardcoop coopsms p token pos flags = Inl Assertion_failed
          \<longleftrightarrow> forwardcoop coopsms p token pos' flags = Inl Assertion_failed))"
proof -
  have "(forward p token pos flags = Inl Assertion_failed
          \<longleftrightarrow> forward p token pos' flags = Inl Assertion_failed)
     \<and> (forwardcoop coopsms p token pos flags = Inl Assertion_failed
          \<longleftrightarrow> forwardcoop coopsms p token pos' flags = Inl Assertion_failed)"
    if "kv_pos p pos \<noteq> None" "kv_pos p pos' \<noteq> None"
  proof -
    from that obtain k k' where "kv_pos p pos = Some k" "kv_pos p pos' = Some k'" by auto
    then show ?thesis using forward_assert_pos forwardcoop_assert_pos by blast
  qed
  then show ?thesis using forward_token_check forwardcoop_token_check by blast
qed

theorem argument_assertions_witness:
  "vocab_size tiny_config \<le> 32
   \<and> kv_pos tiny_config 0 = Some 0 \<and> kv_pos tiny_config (- 1) = Some (- 1)
   \<and> forward tiny_config 32 0 0 = Inl Assertion_failed
   \<and> forwardcoop 84 tiny_config 32 0 0 = Inl Assertion_failed
   \<and> forward tiny_config 32 (- 1) 0 = Inl Assertion_failed
   \<and> forwardcoop 84 tiny_config 32 (- 1) 0 = Inl Assertion_failed"
proof -
  have a: "vocab_size tiny_config \<le> 32" by (simp add: tiny_config_def)
  have k: "kv_pos tiny_config 0 = Some 0" "kv_pos tiny_config (- 1) = Some (- 1)"
    by code_simp+
  have b: "forward tiny_config 32 0 0 = Inl Assertion_failed"
    "forwardcoop 84 tiny_config 32 0 0 = Inl Assertion_failed"
    by (code_simp, simp add: forwardcoop_def k tiny_checks)
  from argument_assertions [of tiny_config 32 0 0 84 "- 1"] a b k show ?thesis by simp
qed

text \<open>
  The claim as first stated fails for the position: with a valid token and \<open>pos = -1\<close>
  the cooperative driver passes every assertion, launches its kernels with \<open>kv_pos = -1\<close>
  and \<open>kv_len = 0\<close>, and returns the logits buffer. The multi-kernel driver passes every
  assertion too and launches its kernels; with the flag set it returns \<^verbatim>\<open>NULL\<close>, and with
  the flag clear it ends in \<^verbatim>\<open>CUDA_CHECK\<close>, not in an assertion, because the attention
  scoring was launched on a grid of \<open>(0 + 127) / 128 = 0\<close> blocks.
\<close>

theorem negative_pos_counterexample:
  "forwardcoop 84 tiny_config 0 (- 1) 0 =
     Inr ([K_embed 0, K_fused_coop 84 (coop_args tiny_config (- 1) (- 1)), K_output 84], Logits)
   \<and> ca_kv_pos (coop_args tiny_config (- 1) (- 1)) = - 1
   \<and> ca_kv_len (coop_args tiny_config (- 1) (- 1)) = 0
   \<and> forward tiny_config 0 (- 1) 1 =
       Inr ([K_embed 0, K_rmsnorm 0, K_matmul_rope_qkv 0 (- 1) (- 1),
             K_attn_score 0 0, K_attn_softmax 0 0, K_attn_mix 0 0, K_matmul_attn 0,
             K_rmsnorm 0, K_matmul_ffn13_silu 0, K_matmul_ffn2 0,
             K_rmsnorm 1, K_matmul_rope_qkv 1 (- 1) (- 1)], NULL)
   \<and> forward tiny_config 0 (- 1) 0 = Inl Launch_failed
   \<and> launch_dims tiny_config (K_attn_score 0 0) = Some ((0, 2), (64, 2))"
proof -
  have "forward tiny_config 0 (- 1) 1 =
       Inr ([K_embed 0, K_rmsnorm 0, K_matmul_rope_qkv 0 (- 1) (- 1),
             K_attn_score 0 0, K_attn_softmax 0 0, K_attn_mix 0 0, K_matmul_attn 0,
             K_rmsnorm 0, K_matmul_ffn13_silu 0, K_matmul_ffn2 0,
             K_rmsnorm 1, K_matmul_rope_qkv 1 (- 1) (- 1)], NULL)"
    "forward tiny_config 0 (- 1) 0 = Inl Launch_failed"
    "launch_dims tiny_config (K_attn_score 0 0) = Some ((0, 2), (64, 2))"
    by code_simp+
  moreover have "kv_pos tiny_config (- 1) = Some (- 1)" by code_simp
  then have "forwardcoop 84 tiny_config 0 (- 1) 0 =
     Inr ([K_embed 0, K_fused_coop 84 (coop_args tiny_config (- 1) (- 1)), K_output 84], Logits)"
    by (simp add: forwardcoop_def tiny_checks tiny_coop_accepted tiny_sinks flag_values)
  moreover have "ca_kv_pos (coop_args tiny_config (- 1) (- 1)) = - 1"
    "ca_kv_len (coop_args tiny_config (- 1) (- 1)) = 0"
    by (simp_all add: coop_args_def kv_len_def tiny_config_def)
  ultimately show ?thesis by simp
qed








lemma region_div_mod:
  fixes r c l :: nat
  assumes "r < c"
  shows "(r + c * l) div c = l" "(r + c * l) mod c = r"
  using assms by simp_all










lemma rotate2_add: "rotate2 \<alpha> (rotate2 \<beta> v) = rotate2 (\<alpha> + \<beta>) v"
  by (simp add: rotate2_def cos_add sin_add algebra_simps)

lemma rotate2_zero: "rotate2 0 v = v"
  by (simp add: rotate2_def)



























lemma stride_index:
  fixes i x b :: nat
  assumes "i < b"
  shows "(i \<le> x \<and> b dvd (x - i)) \<longleftrightarrow> x mod b = i"
proof
  assume a: "i \<le> x \<and> b dvd (x - i)"
  then have "x mod b = i mod b" by (simp add: mod_eq_dvd_iff_nat)
  then show "x mod b = i" using assms by simp
next
  assume m: "x mod b = i"
  have le: "i \<le> x" using m mod_less_eq_dividend [of x b] by simp
  have "x mod b = i mod b" using m assms by simp
  then have "b dvd (x - i)" using le by (simp add: mod_eq_dvd_iff_nat)
  with le show "i \<le> x \<and> b dvd (x - i)" by simp
qed

lemma stride_step:
  fixes j x b :: nat
  assumes "0 < b" "x \<noteq> j"
  shows "(j + b \<le> x \<and> b dvd (x - (j + b))) \<longleftrightarrow> (j \<le> x \<and> b dvd (x - j))"
proof
  assume a: "j + b \<le> x \<and> b dvd (x - (j + b))"
  then have "x - j = (x - (j + b)) + b" by simp
  then have "b dvd (x - j)" using a by (metis dvd_add_triv_right_iff)
  with a show "j \<le> x \<and> b dvd (x - j)" by simp
next
  assume a: "j \<le> x \<and> b dvd (x - j)"
  then obtain k where k: "x - j = b * k" by (elim conjE dvdE)
  have "k \<noteq> 0" using k a assms(2) by (cases k) auto
  then obtain k' where k': "k = Suc k'" by (cases k) auto
  have x: "x = j + b + b * k'" using k k' a by simp
  show "j + b \<le> x \<and> b dvd (x - (j + b))" by (simp add: x)
qed



lemma stride_set_step:
  fixes t0 n b :: nat
  assumes "0 < b" "t0 < n"
  shows "{t. t0 \<le> t \<and> t < n \<and> b dvd (t - t0)} =
           insert t0 {t. t0 + b \<le> t \<and> t < n \<and> b dvd (t - (t0 + b))}"
proof -
  have "(t0 \<le> x \<and> x < n \<and> b dvd (x - t0)) \<longleftrightarrow>
        (x = t0 \<or> (t0 + b \<le> x \<and> x < n \<and> b dvd (x - (t0 + b))))" for x
    using stride_step [OF assms(1), of x t0] assms(2) by (cases "x = t0") auto
  then show ?thesis by auto
qed





















lemma byte_mask: "(0xff :: 32 word) = mask 8" by (simp add: mask_eq_exp_minus_1)

lemma high_mask: "(0xffffff00 :: 32 word) = NOT (mask 8)" by (simp add: mask_eq_exp_minus_1 not_eq_complement)

lemma bit_lane:
  assumes i: "i < 32" and b: "bit (word_of_nat i :: 32 word) n"
  shows "n < 5"
proof -
  from b have "bit i n" by (simp add: bit_simps)
  then have "odd (i div 2 ^ n)" by (simp add: bit_iff_odd)
  then have "i div 2 ^ n \<noteq> 0" by (intro notI) simp
  then have "2 ^ n \<le> i" by (simp add: div_eq_0_iff not_less)
  then have "(2::nat) ^ n < 2 ^ 5" using i by simp
  then show ?thesis by (simp only: power_strict_increasing_iff one_less_numeral_iff semiring_norm)
qed

lemma lane_byte:
  assumes "i < 32"
  shows "((b AND 0xffffff00) OR word_of_nat i) AND 0xff = (word_of_nat i :: 32 word)"
  unfolding byte_mask high_mask
proof (rule bit_word_eqI)
  fix n assume "n < LENGTH(32)"
  have "bit (word_of_nat i :: 32 word) n \<Longrightarrow> n < 8"
    using bit_lane [OF assms, of n] by simp
  then show "bit ((b AND NOT (mask 8) OR word_of_nat i) AND mask 8) n = bit (word_of_nat i :: 32 word) n"
    by (auto simp: bit_simps)
qed

lemma lane_sign:
  assumes "i < 32" "\<not> bit b 31"
  shows "\<not> bit ((b AND 0xffffff00) OR (word_of_nat i :: 32 word)) 31"
  unfolding high_mask using bit_lane [OF assms(1), of 31] assms(2) by (auto simp: bit_simps)

lemma sint_sign: "bit (w :: 32 word) 31 \<longleftrightarrow> sint w < 0"
  using bit_last_iff [of w] by simp

lemma sint_lane: "i < 32 \<Longrightarrow> sint (word_of_nat i :: 32 word) = int i"
proof -
  assume i: "i < 32"
  have "signed_take_bit 31 (int i) = int i"
    using i by (intro signed_take_bit_int_eq_self) simp_all
  then show ?thesis by (simp add: signed_of_nat)
qed

lemma unsigned_real_nonneg: "0 \<le> (unsigned (x :: 32 word) :: real)"
  by (metis of_nat_0_le_iff of_nat_unat)

lemma unsigned_real_pos: "0 < unat (x :: 32 word) \<Longrightarrow> 0 < (unsigned x :: real)"
  by (metis of_nat_0_less_iff of_nat_unat)

lemma int_as_float_nonneg: "\<not> bit w 31 \<Longrightarrow> 0 \<le> int_as_float w"
  by (simp add: int_as_float_def Let_def unsigned_real_nonneg add_nonneg_nonneg)

lemma int_as_float_pos:
  assumes "\<not> bit w 31" "w \<noteq> 0"
  shows "0 < int_as_float w"
proof -
  have "unat (drop_bit 23 w AND 0xFF) \<noteq> 0 \<or> unat (w AND 0x7FFFFF) \<noteq> 0"
  proof (rule ccontr)
    assume "\<not> ?thesis"
    then have e: "drop_bit 23 w AND mask 8 = 0" and m: "w AND mask 23 = 0"
      by (simp_all add: unat_eq_0 mask_eq_exp_minus_1)
    have "w = 0"
    proof (rule bit_word_eqI)
      fix n assume n: "n < LENGTH(32)"
      have "\<not> bit w n"
      proof (cases "n < 23")
        case True
        have "\<not> bit (w AND mask 23) n" by (simp add: m)
        then show ?thesis using True by (simp add: bit_simps)
      next
        case False
        show ?thesis
        proof (cases "n = 31")
          case True
          then show ?thesis using assms(1) by simp
        next
          case n31: False
          have "\<not> bit (drop_bit 23 w AND mask 8) (n - 23)" by (simp add: e)
          then show ?thesis using False n n31 by (auto simp: bit_simps)
        qed
      qed
      then show "bit w n = bit (0 :: 32 word) n" by simp
    qed
    with assms(2) show False by simp
  qed
  then show ?thesis using assms(1)
    by (auto simp: int_as_float_def Let_def unsigned_real_nonneg unsigned_real_pos add_pos_nonneg)
qed

lemma warpreduce_max_eq: "vals \<noteq> [] \<Longrightarrow> warpreduce_max vals = Max (set vals)"
proof (cases vals)
  case Nil
  then show "vals \<noteq> [] \<Longrightarrow> ?thesis" by simp
next
  case (Cons v vs)
  then show ?thesis using Max.set_eq_fold [of v vs] by (simp add: warpreduce_max_def)
qed

lemma fold_maxi:
  "fold (\<lambda>v m. if sint m < sint v then v else m) vs m0 \<in> insert m0 (set vs)
   \<and> (\<forall>v \<in> insert m0 (set vs). sint v \<le> sint (fold (\<lambda>v m. if sint m < sint v then v else m) vs (m0 :: 32 word)))"
proof (induction vs arbitrary: m0)
  case Nil
  then show ?case by simp
next
  case (Cons v vs)
  show ?case
    using Cons.IH [of "if sint m0 < sint v then v else m0"] by (auto split: if_splits)
qed

lemma warpreduce_maxi_max:
  assumes "vals \<noteq> []"
  shows "warpreduce_maxi vals \<in> set vals" "\<And>v. v \<in> set vals \<Longrightarrow> sint v \<le> sint (warpreduce_maxi vals)"
proof -
  obtain v0 vs where v: "vals = v0 # vs" using assms by (cases vals) auto
  have i: "insert v0 (set vals) = set vals" by (auto simp: v)
  have h: "hd vals = v0" by (simp add: v)
  show "warpreduce_maxi vals \<in> set vals"
    using fold_maxi [of vals v0] unfolding i warpreduce_maxi_def h by blast
  show "\<And>v. v \<in> set vals \<Longrightarrow> sint v \<le> sint (warpreduce_maxi vals)"
    using fold_maxi [of vals v0] unfolding i warpreduce_maxi_def h by blast
qed

lemma moe_gate_loop_append:
  "moe_gate_loop (ks @ ks') st = moe_gate_loop ks' (moe_gate_loop ks st)"
  by (induction ks st rule: moe_gate_loop.induct) (simp_all add: Let_def)

lemma moe_gate_loop_snoc:
  "moe_gate_loop [0..<Suc n] st =
     (case moe_gate_loop [0..<n] st of (wi, acti, sumw) \<Rightarrow>
        (map (\<lambda>w. if w = warpreduce_maxi wi then 0 else w) wi,
         map (\<lambda>i. if i = n then warpreduce_maxi wi else acti ! i) [0..<32],
         sumw + int_as_float (warpreduce_maxi wi)))"
  by (simp add: moe_gate_loop_append Let_def split: prod.splits)

lemma sint_zero_iff: "sint (w :: 32 word) = 0 \<longleftrightarrow> w = 0"
  by (metis signed_word_eqI sint_0)

lemma gate_wi_length: "length (gate_wi f weights experts) = 32"
  by (simp add: gate_wi_def)

lemma gate_wi_nth:
  "i < 32 \<Longrightarrow> gate_wi f weights experts ! i
                 = (f (gate_w weights experts i) AND 0xffffff00) OR word_of_nat i"
  by (simp add: gate_wi_def)

lemma gate_wi_byte: "i < 32 \<Longrightarrow> sint (gate_wi f weights experts ! i AND 0xff) = int i"
  by (simp add: gate_wi_nth lane_byte sint_lane)

lemma gate_wi_distinct: "distinct (gate_wi f weights experts)"
  unfolding distinct_conv_nth gate_wi_length
proof (intro allI impI)
  fix i j :: nat
  assume ij: "i < 32" "j < 32" "i \<noteq> j"
  show "gate_wi f weights experts ! i \<noteq> gate_wi f weights experts ! j"
  proof
    assume "gate_wi f weights experts ! i = gate_wi f weights experts ! j"
    then have "sint (gate_wi f weights experts ! i AND 0xff)
                = sint (gate_wi f weights experts ! j AND 0xff)" by simp
    then show False using ij by (simp add: gate_wi_byte)
  qed
qed

lemma gate_w_pos: "0 < gate_w weights experts i"
  by (simp add: gate_w_def Let_def)

lemma gate_wi_sign:
  assumes sgn: "\<And>x. 0 < x \<Longrightarrow> \<not> bit (f x) 31" and w: "w \<in> set (gate_wi f weights experts)"
  shows "0 \<le> sint w"
proof -
  from w obtain i where i: "i < 32" and wi: "w = gate_wi f weights experts ! i"
    by (auto simp: in_set_conv_nth gate_wi_length)
  have "\<not> bit w 31"
    unfolding wi gate_wi_nth [OF i] by (rule lane_sign [OF i sgn [OF gate_w_pos]])
  then show ?thesis by (simp add: sint_sign)
qed

lemma gate_wi_top:
  assumes sgn: "\<And>x. 0 < x \<Longrightarrow> \<not> bit (f x) 31" and one: "f 1 = 0x3F800000"
  shows "\<exists>w \<in> set (gate_wi f weights experts). 0 < sint w"
proof -
  let ?vals = "map (gate_lane_in weights experts) [0..<32]"
  have ne: "?vals \<noteq> []" by simp
  have "Max (set ?vals) \<in> set ?vals" by (rule Max_in) simp_all
  then have "warpreduce_max ?vals \<in> set ?vals" by (simp only: warpreduce_max_eq [OF ne])
  then obtain i where i: "i < 32" and m: "gate_lane_in weights experts i = warpreduce_max ?vals"
    by auto
  have w1: "gate_w weights experts i = 1" by (simp add: gate_w_def Let_def m)
  let ?w = "gate_wi f weights experts ! i"
  have mem: "?w \<in> set (gate_wi f weights experts)" using i by (simp add: gate_wi_length)
  have "bit ?w 23" unfolding gate_wi_nth [OF i] w1 one high_mask by (simp add: bit_simps)
  then have "?w \<noteq> 0" by auto
  then have "sint ?w \<noteq> 0" by (simp add: sint_zero_iff)
  with gate_wi_sign [OF sgn mem] have "0 < sint ?w" by simp
  with mem show ?thesis by blast
qed

lemma moe_gate_loop_selection:
  assumes len: "length W = 32" and dist: "distinct W"
    and sgn: "\<And>w. w \<in> set W \<Longrightarrow> 0 \<le> sint w" and n: "n \<le> 32"
  shows "\<exists>sel. length sel = n \<and> distinct sel \<and> set sel \<subseteq> set W
           \<and> (\<forall>k<n. \<forall>w \<in> set W - set (take k sel). sint w \<le> sint (sel ! k))
           \<and> moe_gate_loop [0..<n] (W, replicate 32 (- 1), 0)
               = (map (\<lambda>w. if w \<in> set sel then 0 else w) W,
                  map (\<lambda>i. if i < n then sel ! i else - 1) [0..<32],
                  sum_list (map int_as_float sel))"
  using n
proof (induction n)
  case 0
  have "moe_gate_loop [0..<0] (W, replicate 32 (- 1), 0)
          = (map (\<lambda>w. if w \<in> set [] then 0 else w) W,
             map (\<lambda>i. if i < 0 then [] ! i else - 1) [0..<32],
             sum_list (map int_as_float []))"
    by (simp add: map_replicate_const)
  then show ?case by (intro exI [of _ "[]"]) simp
next
  case (Suc n)
  then have n: "n < 32" by simp
  from Suc obtain sel where sl: "length sel = n" and sd: "distinct sel" and ss: "set sel \<subseteq> set W"
    and top: "\<forall>k<n. \<forall>w \<in> set W - set (take k sel). sint w \<le> sint (sel ! k)"
    and st: "moe_gate_loop [0..<n] (W, replicate 32 (- 1), 0)
               = (map (\<lambda>w. if w \<in> set sel then 0 else w) W,
                  map (\<lambda>i. if i < n then sel ! i else - 1) [0..<32],
                  sum_list (map int_as_float sel))"
    by auto
  define wi where "wi = map (\<lambda>w. if w \<in> set sel then 0 else w) W"
  define maxi where "maxi = warpreduce_maxi wi"
  have "card (set sel) = n" "card (set W) = 32"
    using sl sd len dist by (simp_all add: distinct_card)
  then have "set sel \<noteq> set W" using n by auto
  with ss obtain u where u: "u \<in> set W" "u \<notin> set sel" by auto
  then have uwi: "u \<in> set wi" by (force simp: wi_def)
  have wi_ne: "wi \<noteq> []" using len by (auto simp: wi_def)
  have mem: "maxi \<in> set wi" and ub: "\<And>v. v \<in> set wi \<Longrightarrow> sint v \<le> sint maxi"
    unfolding maxi_def by (rule warpreduce_maxi_max [OF wi_ne])+
  have fresh: "maxi \<in> set W - set sel"
  proof (cases "maxi = 0")
    case True
    from ub [OF uwi] sgn [OF u(1)] have "sint u = 0" by (simp add: True)
    then have "u = maxi" by (simp add: sint_zero_iff True)
    with u show ?thesis by simp
  next
    case False
    with mem show ?thesis by (auto simp: wi_def split: if_splits)
  qed
  let ?sel = "sel @ [maxi]"
  have a: "length ?sel = Suc n" by (simp add: sl)
  have b: "distinct ?sel" using sd fresh by simp
  have c: "set ?sel \<subseteq> set W" using ss fresh by simp
  have d: "\<forall>k<Suc n. \<forall>w \<in> set W - set (take k ?sel). sint w \<le> sint (?sel ! k)"
  proof (intro allI impI ballI)
    fix k w assume k: "k < Suc n" and w: "w \<in> set W - set (take k ?sel)"
    show "sint w \<le> sint (?sel ! k)"
    proof (cases "k < n")
      case True
      then show ?thesis using top w by (simp add: sl nth_append)
    next
      case False
      with k have kn: "k = n" by simp
      from w have "w \<in> set wi" by (force simp: kn sl wi_def)
      from ub [OF this] show ?thesis by (simp add: kn sl nth_append)
    qed
  qed
  have e1: "map (\<lambda>w. if w = maxi then 0 else w) wi = map (\<lambda>w. if w \<in> set ?sel then 0 else w) W"
    by (auto simp: wi_def)
  have e2: "map (\<lambda>i. if i = n then maxi
                     else map (\<lambda>i. if i < n then sel ! i else - 1) [0..<32] ! i) [0..<32]
              = map (\<lambda>i. if i < Suc n then ?sel ! i else - 1) [0..<32]"
    by (auto simp: sl nth_append)
  have e3: "sum_list (map int_as_float sel) + int_as_float maxi = sum_list (map int_as_float ?sel)"
    by simp
  have e: "moe_gate_loop [0..<Suc n] (W, replicate 32 (- 1), 0)
             = (map (\<lambda>w. if w \<in> set ?sel then 0 else w) W,
                map (\<lambda>i. if i < Suc n then ?sel ! i else - 1) [0..<32],
                sum_list (map int_as_float ?sel))"
    unfolding moe_gate_loop_snoc st prod.case wi_def [symmetric] maxi_def [symmetric] e1 e2 e3 ..
  from a b c d e show ?case by (intro exI [of _ ?sel] conjI)
qed

lemma sum_list_divide: "sum_list (map (\<lambda>x. f x / c) xs) = sum_list (map f xs) / (c :: real)"
  by (induction xs) (simp_all add: add_divide_distrib)

lemma lane_high:
  assumes "i < 32"
  shows "((b AND 0xffffff00) OR word_of_nat i) AND 0xffffff00 = (b AND 0xffffff00 :: 32 word)"
  unfolding high_mask
proof (rule bit_word_eqI)
  fix n assume "n < LENGTH(32)"
  have "bit (word_of_nat i :: 32 word) n \<Longrightarrow> n < 8"
    using bit_lane [OF assms, of n] by simp
  then show "bit ((b AND NOT (mask 8) OR word_of_nat i) AND NOT (mask 8)) n = bit (b AND NOT (mask 8)) n"
    by (auto simp: bit_simps)
qed

lemma small_high:
  assumes "0 \<le> sint (w :: 32 word)" "sint w < 32"
  shows "w AND 0xffffff00 = 0"
proof -
  have "w = word_of_int (sint w)" by simp
  also have "\<dots> = word_of_nat (nat (sint w))" using assms(1) by simp
  finally have w: "w = word_of_nat (nat (sint w))" .
  have i: "nat (sint w) < 32" using assms by simp
  show ?thesis unfolding high_mask
  proof (rule bit_word_eqI)
    fix n assume "n < LENGTH(32)"
    have "bit w n \<Longrightarrow> n < 8"
      using bit_lane [OF i, of n] w by simp
    then show "bit (w AND NOT (mask 8)) n = bit (0 :: 32 word) n"
      by (auto simp: bit_simps)
  qed
qed

lemma gate_wi_expert:
  assumes sgn: "\<And>x. 0 < x \<Longrightarrow> \<not> bit (f x) 31" and i: "i < 32"
    and hi: "f (gate_w weights experts i) AND 0xffffff00 \<noteq> 0"
  shows "32 \<le> sint (gate_wi f weights experts ! i)"
proof (rule ccontr)
  let ?w = "gate_wi f weights experts ! i"
  assume "\<not> 32 \<le> sint ?w"
  moreover have "?w \<in> set (gate_wi f weights experts)" using i by (simp add: gate_wi_length)
  then have "0 \<le> sint ?w" using gate_wi_sign [of f ?w weights experts] sgn by blast
  ultimately have "?w AND 0xffffff00 = 0" by (intro small_high) simp_all
  then show False using hi by (simp add: gate_wi_nth [OF i] lane_high [OF i])
qed

lemma gate_wi_idle:
  assumes i: "i < 32" and hi: "f (gate_w weights experts i) AND 0xffffff00 = 0"
  shows "sint (gate_wi f weights experts ! i) = int i"
  by (simp add: gate_wi_nth [OF i] hi sint_lane [OF i])

lemma selection_experts:
  assumes sgn: "\<And>x. 0 < x \<Longrightarrow> \<not> bit (f x) 31"
    and hi: "\<And>i. i < 32 \<Longrightarrow> (f (gate_w weights experts i) AND 0xffffff00 = 0) = (experts \<le> i)"
    and e: "experts \<le> 32" and k: "k < experts"
    and sel: "length sel = active" "k < active"
    and top: "\<forall>w \<in> set (gate_wi f weights experts) - set (take k sel). sint w \<le> sint (sel ! k)"
    and mem: "sel ! k = gate_wi f weights experts ! i" "i < 32"
  shows "i < experts"
proof (rule ccontr)
  let ?W = "gate_wi f weights experts"
  assume "\<not> i < experts"
  then have "f (gate_w weights experts i) AND 0xffffff00 = 0" using hi [OF mem(2)] by simp
  then have small: "sint (sel ! k) = int i" by (simp add: mem(1) gate_wi_idle [OF mem(2)])
  have "distinct (take experts ?W)" by (simp add: gate_wi_distinct)
  then have "card (set (take experts ?W)) = experts"
    using e by (simp add: distinct_card gate_wi_length)
  moreover have "card (set (take k sel)) \<le> k"
    using card_length [of "take k sel"] by simp
  ultimately have "\<not> set (take experts ?W) \<subseteq> set (take k sel)"
    using k card_mono [of "set (take k sel)" "set (take experts ?W)"] by auto
  then obtain x where x: "x \<in> set (take experts ?W)" "x \<notin> set (take k sel)" by auto
  from x(1) obtain j where j: "j < experts" "x = ?W ! j"
    by (auto simp: in_set_conv_nth gate_wi_length)
  have j32: "j < 32" using j(1) e by simp
  have "x \<in> set ?W" using x(1) by (rule in_set_takeD)
  with x(2) top have "sint x \<le> sint (sel ! k)" by simp
  moreover have "f (gate_w weights experts j) AND 0xffffff00 \<noteq> 0" using hi [OF j32] j(1) by simp
  then have "32 \<le> sint x" unfolding j(2) using gate_wi_expert [of f j weights experts] sgn j32 by blast
  ultimately show False using small mem(2) by simp
qed

lemma moe_gate_warp_selection:
  assumes a: "1 \<le> active" "active \<le> 32"
    and sgn: "\<And>x. 0 < x \<Longrightarrow> \<not> bit (f x) 31" and one: "f 1 = 0x3F800000"
  shows "\<exists>sel. length sel = active \<and> distinct sel \<and> set sel \<subseteq> set (gate_wi f weights experts)
           \<and> (\<forall>k<active. \<forall>w \<in> set (gate_wi f weights experts) - set (take k sel).
                  sint w \<le> sint (sel ! k))
           \<and> 0 < sum_list (map int_as_float sel)
           \<and> moe_gate_warp f weights experts active
               = Some (map (\<lambda>s. int_as_float s / sum_list (map int_as_float sel)) sel,
                       map (\<lambda>s. sint (s AND 0xff)) sel)"
proof -
  let ?W = "gate_wi f weights experts"
  have sg: "\<And>w. w \<in> set ?W \<Longrightarrow> 0 \<le> sint w" by (rule gate_wi_sign [of f, OF sgn])
  from moe_gate_loop_selection [OF gate_wi_length gate_wi_distinct sg a(2)]
  obtain sel where sl: "length sel = active" and sd: "distinct sel" and ss: "set sel \<subseteq> set ?W"
    and top: "\<forall>k<active. \<forall>w \<in> set ?W - set (take k sel). sint w \<le> sint (sel ! k)"
    and st: "moe_gate_loop [0..<active] (?W, replicate 32 (- 1), 0)
               = (map (\<lambda>w. if w \<in> set sel then 0 else w) ?W,
                  map (\<lambda>i. if i < active then sel ! i else - 1) [0..<32],
                  sum_list (map int_as_float sel))"
    by blast
  let ?acti = "map (\<lambda>i. if i < active then sel ! i else - 1) [0..<32]"
  let ?S = "sum_list (map int_as_float sel)"
  have acti: "?acti ! i = sel ! i" if "i < active" for i using that a(2) by simp
  have nn: "0 \<le> sint s" if "s \<in> set sel" for s using that ss sg by blast
  have ok: "list_all (\<lambda>i. 0 \<le> sint (?acti ! i)) [0..<min active 32]"
    using a(2) by (simp add: list_all_iff acti nn sl)
  have idx: "map (\<lambda>i. g (?acti ! i)) [0..<min active 32] = map g sel" for g :: "32 word \<Rightarrow> 'b"
  proof -
    have "map (\<lambda>i. g (?acti ! i)) [0..<min active 32] = map (\<lambda>i. g (sel ! i)) [0..<length sel]"
      using a(2) by (simp add: sl acti)
    also have "\<dots> = map g (map ((!) sel) [0..<length sel])" by simp
    also have "\<dots> = map g sel" by (simp only: map_nth)
    finally show ?thesis .
  qed
  have res: "moe_gate_warp f weights experts active
               = Some (map (\<lambda>s. int_as_float s / ?S) sel, map (\<lambda>s. sint (s AND 0xff)) sel)"
    unfolding moe_gate_warp_def st prod.case using ok
    by (simp only: if_True idx [of "\<lambda>s. int_as_float s / ?S"] idx [of "\<lambda>s. sint (s AND 0xff)"])
  obtain s0 rest where sel: "sel = s0 # rest" using sl a(1) by (cases sel) auto
  from gate_wi_top [of f, OF sgn one] obtain w where w: "w \<in> set ?W" "0 < sint w" by blast
  have "sint w \<le> sint (sel ! 0)" using top a(1) w(1) by simp
  then have "0 < sint s0" using w(2) by (simp add: sel)
  then have "s0 \<noteq> 0" by auto
  moreover have "\<not> bit s0 31" using nn [of s0] by (simp add: sel sint_sign)
  ultimately have p0: "0 < int_as_float s0" by (intro int_as_float_pos)
  have "0 \<le> int_as_float s" if "s \<in> set rest" for s
  proof -
    have "0 \<le> sint s" using that by (intro nn) (simp add: sel)
    then show ?thesis by (intro int_as_float_nonneg) (simp add: sint_sign)
  qed
  then have "0 \<le> sum_list (map int_as_float rest)"
    by (intro sum_list_nonneg) auto
  with p0 have pos: "0 < ?S" by (simp add: sel)
  from sl sd ss top pos res show ?thesis by blast
qed

lemma gate_wi_byte_inj: "inj_on (\<lambda>s. sint (s AND 0xff)) (set (gate_wi f weights experts))"
  by (auto simp: inj_on_def in_set_conv_nth gate_wi_length gate_wi_byte)

lemma gate_example_max:
  "warpreduce_max (map (gate_lane_in (\<lambda>i. 0) 2) [0..<32]) = 0"
proof -
  let ?vals = "map (gate_lane_in (\<lambda>i. 0) 2) [0..<32]"
  have "?vals \<noteq> []" by simp
  then have "warpreduce_max ?vals = Max (set ?vals)" by (rule warpreduce_max_eq)
  also have "\<dots> = 0"
  proof (rule Max_eqI)
    show "finite (set ?vals)" by simp
    show "y \<le> 0" if "y \<in> set ?vals" for y
      using that by (auto simp: gate_lane_in_def FLT_MAX_def)
    have "gate_lane_in (\<lambda>i. 0) 2 0 \<in> set ?vals" by (simp del: upt_rec_numeral)
    then show "0 \<in> set ?vals" by (simp add: gate_lane_in_def del: set_map set_upt)
  qed
  finally show ?thesis .
qed

lemma gate_example_w: "gate_w (\<lambda>i. 0) 2 i = (if i < 2 then 1 else exp (- FLT_MAX))"
  by (simp add: gate_w_def Let_def gate_example_max gate_lane_in_def)

lemma gate_example_code:
  "one_or_zero (gate_w (\<lambda>i. 0) 2 i) = (if i < 2 then 0x3F800000 else 0)"
  by (simp add: gate_example_w one_or_zero_def FLT_MAX_def)

lemma one_or_zero_sign: "\<not> bit (one_or_zero x) 31"
  by (simp add: one_or_zero_def sint_sign)

text \<open>
  What the gate guarantees. Take the encoder \<^verbatim>\<open>__float_as_int\<close> to give every positive value a pattern
  with a clear sign bit and the value \<open>1.0\<close> the pattern \<^verbatim>\<open>0x3F800000\<close>. Then for
  \<open>1 \<le> active \<le> experts \<le> 32\<close> the gate's assertion holds and it writes \<open>active\<close> slots:
  the \<open>k\<close>-th slot holds the lane whose packed value is the largest among the lanes not
  taken by an earlier slot, the lane indices written to \<^verbatim>\<open>moe_experts\<close> are pairwise
  distinct and below 32, and the weights written to \<^verbatim>\<open>moe_weights\<close> are the decoded
  packed values divided by their sum, so that they add up to 1 (in exact arithmetic). When
  exactly the lanes of the experts have a packed weight that is not zero, every index written
  is the index of an expert.
\<close>

theorem moe_gate_selection:
  assumes "1 \<le> active" and "active \<le> experts" and "experts \<le> 32"
    and "\<forall>x. 0 < x \<longrightarrow> \<not> bit (float_as_int x) 31"
    and "float_as_int 1 = 0x3F800000"
  shows "\<exists>sel ws es.
           moe_gate_warp float_as_int weights experts active = Some (ws, es)
         \<and> length sel = active \<and> distinct sel
         \<and> set sel \<subseteq> set (gate_wi float_as_int weights experts)
         \<and> (\<forall>k<active. \<forall>w \<in> set (gate_wi float_as_int weights experts) - set (take k sel).
                sint w \<le> sint (sel ! k))
         \<and> ws = map (\<lambda>s. int_as_float s / sum_list (map int_as_float sel)) sel
         \<and> es = map (\<lambda>s. sint (s AND 0xff)) sel
         \<and> length es = active \<and> distinct es \<and> (\<forall>e \<in> set es. 0 \<le> e \<and> e < 32)
         \<and> sum_list ws = 1
         \<and> ((\<forall>i<32. (float_as_int (gate_w weights experts i) AND 0xffffff00 = 0) = (experts \<le> i))
              \<longrightarrow> (\<forall>e \<in> set es. e < int experts))"
proof -
  let ?f = float_as_int
  let ?W = "gate_wi ?f weights experts"
  let ?g = "\<lambda>s :: 32 word. sint (s AND 0xff)"
  have sgn: "\<And>x. 0 < x \<Longrightarrow> \<not> bit (?f x) 31" using assms(4) by blast
  have a32: "active \<le> 32" using assms(2,3) by simp
  from moe_gate_warp_selection [of active ?f weights experts, OF assms(1) a32 sgn assms(5)]
  obtain sel where sl: "length sel = active" and sd: "distinct sel" and ss: "set sel \<subseteq> set ?W"
    and top: "\<forall>k<active. \<forall>w \<in> set ?W - set (take k sel). sint w \<le> sint (sel ! k)"
    and pos: "0 < sum_list (map int_as_float sel)"
    and res: "moe_gate_warp ?f weights experts active
               = Some (map (\<lambda>s. int_as_float s / sum_list (map int_as_float sel)) sel, map ?g sel)"
    by blast
  let ?ws = "map (\<lambda>s. int_as_float s / sum_list (map int_as_float sel)) sel"
  let ?es = "map ?g sel"
  have lane: "\<exists>i<32. s = ?W ! i \<and> ?g s = int i" if "s \<in> set sel" for s
  proof -
    from that ss have "s \<in> set ?W" by blast
    then obtain i where "i < 32" "s = ?W ! i" by (auto simp: in_set_conv_nth gate_wi_length)
    then show ?thesis by (auto simp: gate_wi_byte)
  qed
  have "inj_on ?g (set sel)" by (rule inj_on_subset [OF gate_wi_byte_inj ss])
  then have d: "distinct ?es" using sd by (simp add: distinct_map)
  have r: "\<forall>e \<in> set ?es. 0 \<le> e \<and> e < 32" using lane by fastforce
  have s1: "sum_list ?ws = 1" using pos by (simp add: sum_list_divide)
  have x: "\<forall>e \<in> set ?es. e < int experts"
    if hi: "\<forall>i<32. (?f (gate_w weights experts i) AND 0xffffff00 = 0) = (experts \<le> i)"
  proof
    fix e assume "e \<in> set ?es"
    then obtain k where k: "k < active" and e: "e = ?g (sel ! k)"
      by (auto simp: in_set_conv_nth sl)
    from lane [of "sel ! k"] k obtain i where i: "i < 32" "sel ! k = ?W ! i" "?g (sel ! k) = int i"
      by (auto simp: sl)
    have "k < experts" using k assms(2) by simp
    moreover have "\<forall>w \<in> set ?W - set (take k sel). sint w \<le> sint (sel ! k)" using top k by blast
    ultimately have "i < experts"
      using selection_experts [of ?f weights experts k sel active i] sgn hi assms(3) sl k i(1,2)
      by blast
    then show "e < int experts" by (simp add: e i(3))
  qed
  from res sl sd ss top d r s1 x show ?thesis
    by (intro exI [of _ sel] exI [of _ ?ws] exI [of _ ?es]) simp
qed

theorem moe_gate_selection_witness:
  "\<exists>ws es. moe_gate_warp one_or_zero (\<lambda>i. 0) 2 1 = Some (ws, es)
         \<and> length es = 1 \<and> 0 \<le> es ! 0 \<and> es ! 0 < 2 \<and> sum_list ws = 1"
proof -
  have h: "(1::nat) \<le> 1" "(1::nat) \<le> 2" "(2::nat) \<le> 32"
    "\<forall>x::real. 0 < x \<longrightarrow> \<not> bit (one_or_zero x) 31" "one_or_zero 1 = 0x3F800000"
    by (simp_all add: one_or_zero_sign) (simp add: one_or_zero_def)
  have hi: "\<forall>i<32. (one_or_zero (gate_w (\<lambda>i. 0) 2 i) AND 0xffffff00 = 0) = (2 \<le> i)"
    by (simp add: gate_example_code)
  from moe_gate_selection [OF h, of "\<lambda>i. 0"] hi
  obtain ws es where "moe_gate_warp one_or_zero (\<lambda>i. 0) 2 1 = Some (ws, es)"
    "length es = 1" "\<forall>e \<in> set es. 0 \<le> e \<and> e < 32" "sum_list ws = 1" "\<forall>e \<in> set es. e < 2"
    by auto
  moreover from this(2) have "es ! 0 \<in> set es" by simp
  ultimately show ?thesis by blast
qed

lemma far_max: "warpreduce_max (map (gate_lane_in far_logits 2) [0..<32]) = 0"
proof -
  let ?vals = "map (gate_lane_in far_logits 2) [0..<32]"
  have "?vals \<noteq> []" by simp
  then have "warpreduce_max ?vals = Max (set ?vals)" by (rule warpreduce_max_eq)
  also have "\<dots> = 0"
  proof (rule Max_eqI)
    show "finite (set ?vals)" by simp
    show "y \<le> 0" if "y \<in> set ?vals" for y
      using that by (auto simp: gate_lane_in_def far_logits_def FLT_MAX_def)
    have "gate_lane_in far_logits 2 0 \<in> set ?vals" by (simp del: upt_rec_numeral)
    then show "0 \<in> set ?vals" by (simp add: gate_lane_in_def far_logits_def del: set_map set_upt)
  qed
  finally show ?thesis .
qed

lemma far_code: "one_or_zero (gate_w far_logits 2 i) = (if i = 0 then 0x3F800000 else 0)"
  by (simp add: gate_w_def Let_def far_max gate_lane_in_def far_logits_def one_or_zero_def FLT_MAX_def)

lemma lanes32: "[0..<32] = [0, 1, 2, 3, 4, 5, 6, 7, 8, 9, 10, 11, 12, 13, 14, 15, 16, 17, 18, 19, 20, 21, 22, 23, 24, 25, 26, 27, 28, 29, 30, 31]"
  by code_simp

lemma far_wi:
  "gate_wi one_or_zero far_logits 2 = [0x3F800000, 1, 2, 3, 4, 5, 6, 7, 8, 9, 10, 11, 12, 13, 14, 15, 16, 17, 18, 19, 20, 21, 22, 23, 24, 25, 26, 27, 28, 29, 30, 31]"
  by (simp add: gate_wi_def far_code lanes32)

lemma far_first: "warpreduce_maxi [0x3F800000, 1, 2, 3, 4, 5, 6, 7, 8, 9, 10, 11, 12, 13, 14, 15, 16, 17, 18, 19, 20, 21, 22, 23, 24, 25, 26, 27, 28, 29, 30, 31] = 0x3F800000"
  by code_simp

lemma far_second: "warpreduce_maxi [0, 1, 2, 3, 4, 5, 6, 7, 8, 9, 10, 11, 12, 13, 14, 15, 16, 17, 18, 19, 20, 21, 22, 23, 24, 25, 26, 27, 28, 29, 30, 31] = 31"
  by code_simp

lemma far_loop:
  "moe_gate_loop [0, Suc 0] ([0x3F800000, 1, 2, 3, 4, 5, 6, 7, 8, 9, 10, 11, 12, 13, 14, 15, 16, 17, 18, 19, 20, 21, 22, 23, 24, 25, 26, 27, 28, 29, 30, 31], A, s) =
     ([0, 1, 2, 3, 4, 5, 6, 7, 8, 9, 10, 11, 12, 13, 14, 15, 16, 17, 18, 19, 20, 21, 22, 23, 24, 25, 26, 27, 28, 29, 30, 0],
      map (\<lambda>i. if i = Suc 0 then 31 else map (\<lambda>i. if i = 0 then 0x3F800000 else A ! i) [0..<32] ! i) [0..<32],
      s + int_as_float 0x3F800000 + int_as_float 31)"
  by (simp add: far_first far_second Let_def)

lemma two_steps: "[0..<2] = [0, Suc 0]"
  by (simp add: numeral_2_eq_2)

text \<open>
  Claim C4 fails on the code. With two experts, both active, and the logits 0 and
  \<open>-100\<close>, the weight \<open>exp(-100)\<close> of expert 1 is below \<open>2\<^sup>-\<^sup>1\<^sup>4\<^sup>1\<close>: its pattern
  (\<^verbatim>\<open>0x0000001B\<close> in single precision) has nothing in the 24 bits the gate keeps, as the
  stand-in encoder has it too, so the packed value of lane 1 is its index 1 and every idle
  lane \<open>i \<ge> 2\<close>, packed as \<open>i\<close>, is above it. The second slot is given to lane 31, which is
  no expert: \<^verbatim>\<open>moe_experts\<close> becomes \<open>[0, 31]\<close>.
\<close>

theorem moe_gate_idle_lane:
  "map_option snd (moe_gate_warp one_or_zero far_logits 2 2) = Some [0, 31]"
  unfolding moe_gate_warp_def far_wi two_steps far_loop
  by (simp add: two_steps)

declare grid_stride.simps [simp del]

lemma grid_stride_pointwise:
  assumes step: "0 < step" and body: "\<And>j s. j < n \<Longrightarrow> body j s = s(j := h j (s j))"
  shows "grid_stride body n step j s t =
           (if j \<le> t \<and> t < n \<and> step dvd (t - j) then h t (s t) else s t)"
  using assms
proof (induction body n step j s rule: grid_stride.induct)
  case (1 body n step j s)
  show ?case
  proof (cases "j < n")
    case True
    let ?s = "body j s"
    have bj: "?s = s(j := h j (s j))" by (rule "1.prems"(2) [OF True])
    have "grid_stride body n step j s t = grid_stride body n step (j + step) ?s t"
      using True "1.prems"(1) by (subst grid_stride.simps) simp
    also have "\<dots> = (if j + step \<le> t \<and> t < n \<and> step dvd (t - (j + step))
                      then h t (?s t) else ?s t)"
      by (rule "1.IH" [OF conjI [OF True "1.prems"(1)] "1.prems"])
    finally have st: "grid_stride body n step j s t =
        (if j + step \<le> t \<and> t < n \<and> step dvd (t - (j + step)) then h t (?s t) else ?s t)" .
    show ?thesis
    proof (cases "t = j")
      case tj: True
      show ?thesis unfolding st bj using tj True "1.prems"(1) by simp
    next
      case False
      show ?thesis unfolding st bj using False stride_step [OF "1.prems"(1) False] by auto
    qed
  next
    case False
    then show ?thesis by (subst grid_stride.simps) auto
  qed
qed

lemma grid_stride_starts:
  assumes step: "0 < step" and body: "\<And>j s. j < n \<Longrightarrow> body j s = s(j := h j (s j))"
  shows "distinct starts \<Longrightarrow> set starts \<subseteq> {..<step} \<Longrightarrow>
         fold (\<lambda>i. grid_stride body n step i) starts s t =
           (if t < n \<and> t mod step \<in> set starts then h t (s t) else s t)"
proof (induction starts arbitrary: s)
  case Nil
  then show ?case by simp
next
  case (Cons i starts)
  have i: "i < step" using Cons.prems by simp
  have one: "grid_stride body n step i s t =
               (if t < n \<and> t mod step = i then h t (s t) else s t)"
    using stride_index [OF i, of t] by (auto simp: grid_stride_pointwise [OF step body])
  have "i \<notin> set starts" using Cons.prems by simp
  then show ?case
    using Cons.IH [of "grid_stride body n step i s"] Cons.prems one by auto
qed

lemma grid_stride_sum:
  "0 < step \<Longrightarrow>
   grid_stride (\<lambda>j a. a + g j) n step j (a :: real) =
     a + (\<Sum>t \<in> {t. j \<le> t \<and> t < n \<and> step dvd (t - j)}. g t)"
proof (induction "\<lambda>j (a :: real). a + g j" n step j a rule: grid_stride.induct)
  case (1 n step j a)
  show ?case
  proof (cases "j < n")
    case True
    let ?S = "{t. j + step \<le> t \<and> t < n \<and> step dvd (t - (j + step))}"
    have fin: "finite ?S" by simp
    have notin: "j \<notin> ?S" using "1.prems" by simp
    have set: "{t. j \<le> t \<and> t < n \<and> step dvd (t - j)} = insert j ?S"
      using stride_set_step [OF "1.prems" True] .
    have "grid_stride (\<lambda>j a. a + g j) n step j a
            = grid_stride (\<lambda>j a. a + g j) n step (j + step) (a + g j)"
      using True "1.prems" by (subst grid_stride.simps) simp
    also have "\<dots> = a + g j + (\<Sum>t \<in> ?S. g t)"
      by (rule "1.hyps" [OF conjI [OF True "1.prems"] "1.prems"])
    finally show ?thesis unfolding set using fin notin by simp
  next
    case False
    then have e: "{t. j \<le> t \<and> t < n \<and> step dvd (t - j)} = {}" by auto
    show ?thesis unfolding e using False by (subst grid_stride.simps) simp
  qed
qed

lemma grid_stride_pair:
  "grid_stride (\<lambda>j (a, b). (f j a, g j b)) n step j (a, b)
     = (grid_stride f n step j a, grid_stride g n step j b)"
proof (induction "\<lambda>j (a, b). (f j a, g j b)" n step j "(a, b)" arbitrary: a b rule: grid_stride.induct)
  case (1 n step j a b)
  show ?case
  proof (cases "j < n \<and> 0 < step")
    case True
    have "grid_stride (\<lambda>j (a, b). (f j a, g j b)) n step j (a, b)
            = grid_stride (\<lambda>j (a, b). (f j a, g j b)) n step (j + step) (f j a, g j b)"
      using True by (subst grid_stride.simps) simp
    also have "\<dots> = (grid_stride f n step (j + step) (f j a), grid_stride g n step (j + step) (g j b))"
      by (rule "1.hyps" [OF True]) simp
    also have "\<dots> = (grid_stride f n step j a, grid_stride g n step j b)"
      using True by (subst (3) grid_stride.simps, subst (4) grid_stride.simps) simp
    finally show ?thesis .
  next
    case False
    then show ?thesis
      by (subst grid_stride.simps, subst (2) grid_stride.simps, subst (3) grid_stride.simps) auto
  qed
qed

lemma stride_partition:
  fixes g :: "nat \<Rightarrow> real"
  assumes "0 < b"
  shows "(\<Sum>i<b. \<Sum>t \<in> {t. i \<le> t \<and> t < n \<and> b dvd (t - i)}. g t) = (\<Sum>t<n. g t)"
proof -
  have "(\<Sum>i<b. \<Sum>t \<in> {t. i \<le> t \<and> t < n \<and> b dvd (t - i)}. g t)
          = (\<Sum>i \<in> {..<b}. \<Sum>t \<in> {t \<in> {..<n}. t mod b = i}. g t)"
  proof (rule sum.cong [OF refl])
    fix i assume "i \<in> {..<b}"
    then have i: "i < b" by simp
    have "{t. i \<le> t \<and> t < n \<and> b dvd (t - i)} = {t \<in> {..<n}. t mod b = i}"
      using stride_index [OF i] by auto
    then show "(\<Sum>t \<in> {t. i \<le> t \<and> t < n \<and> b dvd (t - i)}. g t)
                 = (\<Sum>t \<in> {t \<in> {..<n}. t mod b = i}. g t)" by simp
  qed
  also have "\<dots> = (\<Sum>t<n. g t)"
    using assms by (intro sum.group) auto
  finally show ?thesis .
qed

lemma rmsnorm_eq:
  assumes b: "0 < bdim"
  shows "rmsnorm bdim ob x weight n eps =
           ((\<lambda>t. if t < n then x t * weight t else ob t),
            1 / sqrt ((\<Sum>t<n. x t * x t) / real n + eps))"
proof -
  have th: "rmsnorm_thread x weight n bdim i (a, o') =
              (grid_stride (\<lambda>j a. a + x j * x j) n bdim i a,
               grid_stride (\<lambda>j ob. ob(j := x j * weight j)) n bdim i o')" for i a o'
    unfolding rmsnorm_thread_def by (rule grid_stride_pair)
  have "fold (\<lambda>i ob. snd (rmsnorm_thread x weight n bdim i (0, ob))) [0..<bdim] ob t
          = (if t < n then x t * weight t else ob t)" for t
  proof -
    have "fold (\<lambda>i. grid_stride (\<lambda>j ob. ob(j := x j * weight j)) n bdim i) [0..<bdim] ob t
            = (if t < n \<and> t mod bdim \<in> set [0..<bdim] then x t * weight t else ob t)"
      by (rule grid_stride_starts [OF b, where h = "\<lambda>j a. x j * weight j"]) auto
    then show ?thesis using b by (simp add: th)
  qed
  then have o: "fold (\<lambda>i ob. snd (rmsnorm_thread x weight n bdim i (0, ob))) [0..<bdim] ob
                  = (\<lambda>t. if t < n then x t * weight t else ob t)" by (intro ext)
  have "blockreduce_sum (map (\<lambda>i. fst (rmsnorm_thread x weight n bdim i (0, ob))) [0..<bdim])
          = (\<Sum>i<bdim. \<Sum>t \<in> {t. i \<le> t \<and> t < n \<and> bdim dvd (t - i)}. x t * x t)"
    by (simp add: blockreduce_sum_def th grid_stride_sum [OF b] interv_sum_list_conv_sum_set_nat
                  atLeast0LessThan)
  also have "\<dots> = (\<Sum>t<n. x t * x t)" by (rule stride_partition [OF b])
  finally show ?thesis by (simp add: rmsnorm_def Let_def o)
qed

lemma coop_io_decode:
  assumes "b < gdim"
  shows "coop_io gdim b w div (2 * gdim) = w div 2"
    and "coop_io gdim b w mod (2 * gdim) = b * 2 + w mod 2"
proof -
  have r: "b * 2 + w mod 2 < 2 * gdim" using assms by (simp add: mod_2_eq_odd)
  have e: "coop_io gdim b w = (b * 2 + w mod 2) + (2 * gdim) * (w div 2)"
    by (simp add: coop_io_def)
  show "coop_io gdim b w div (2 * gdim) = w div 2" unfolding e by (rule region_div_mod(1) [OF r])
  show "coop_io gdim b w mod (2 * gdim) = b * 2 + w mod 2"
    unfolding e by (rule region_div_mod(2) [OF r])
qed

lemma coop_io_inj:
  assumes "b < gdim" "b' < gdim" "coop_io gdim b w = coop_io gdim b' w'"
  shows "b = b' \<and> w = w'"
proof -
  have d: "w div 2 = w' div 2"
    using coop_io_decode(1) [OF assms(1), of w] coop_io_decode(1) [OF assms(2), of w'] assms(3)
    by simp
  have m: "b * 2 + w mod 2 = b' * 2 + w' mod 2"
    using coop_io_decode(2) [OF assms(1), of w] coop_io_decode(2) [OF assms(2), of w'] assms(3)
    by simp
  from m have "b = b'" "w mod 2 = w' mod 2" by presburger+
  moreover have "w = 2 * (w div 2) + w mod 2" "w' = 2 * (w' div 2) + w' mod 2" by simp_all
  ultimately show ?thesis using d by metis
qed

lemma coop_ib_eq: "coop_ib gdim = 32 * gdim"
  by (simp add: coop_ib_def)

lemma coop_io_range:
  assumes "b < gdim" "w < 32"
  shows "coop_io gdim b w < coop_ib gdim"
proof -
  have "w div 2 \<le> 15" using assms(2) by simp
  then have "gdim * 2 * (w div 2) \<le> gdim * 2 * 15" by (intro mult_le_mono) simp_all
  moreover have "b * 2 + w mod 2 < gdim * 2" using assms(1) by (simp add: mod_2_eq_odd)
  ultimately show ?thesis unfolding coop_io_def coop_ib_eq by linarith
qed

lemma coop_io_cover:
  assumes "t < coop_ib gdim"
  shows "\<exists>b<gdim. \<exists>w<32. coop_io gdim b w = t"
proof -
  have t: "t < 16 * (2 * gdim)" using assms by (simp add: coop_ib_eq)
  then have g: "0 < 2 * gdim" by (cases gdim) simp_all
  let ?r = "t mod (2 * gdim)"
  let ?b = "?r div 2"
  let ?w = "2 * (t div (2 * gdim)) + ?r mod 2"
  have "?r < 2 * gdim" using g by simp
  then have b: "?b < gdim" by simp
  have "t div (2 * gdim) < 16" using t g by (simp add: div_less_iff_less_mult)
  then have w: "?w < 32" by (simp add: mod_2_eq_odd)
  have wd: "?w div 2 = t div (2 * gdim)" and wm: "?w mod 2 = ?r mod 2" by simp_all
  have e1: "?b * 2 + ?r mod 2 = ?r" by simp
  have e2: "gdim * 2 * (t div (2 * gdim)) = (2 * gdim) * (t div (2 * gdim))" by simp
  have "coop_io gdim ?b ?w = t" unfolding coop_io_def wd wm e1 e2 by (rule mod_mult_div_eq)
  then show ?thesis using b w by blast
qed

lemma coop_phase_apply:
  assumes body: "\<And>j s. j < n \<Longrightarrow> body j s = s(j := h j (s j))"
  shows "fold (\<lambda>(bidx, warp). grid_stride body n (coop_ib gdim) (coop_io gdim bidx warp))
              (coop_warps gdim) s t
           = (if t < n \<and> 0 < gdim then h t (s t) else s t)"
proof (cases "0 < gdim")
  case False
  then show ?thesis by (simp add: coop_warps_def)
next
  case True
  let ?starts = "map (\<lambda>(bidx, warp). coop_io gdim bidx warp) (coop_warps gdim)"
  have step: "0 < coop_ib gdim" using True by (simp add: coop_ib_eq)
  have conv: "fold (\<lambda>(bidx, warp). grid_stride body n (coop_ib gdim) (coop_io gdim bidx warp))
                   (coop_warps gdim) s
                = fold (\<lambda>i. grid_stride body n (coop_ib gdim) i) ?starts s"
    by (simp add: fold_map comp_def case_prod_unfold)
  have "inj_on (\<lambda>(bidx, warp). coop_io gdim bidx warp) (set (coop_warps gdim))"
    by (auto simp: inj_on_def coop_warps_def dest: coop_io_inj)
  then have d: "distinct ?starts" by (simp add: distinct_map coop_warps_def distinct_product)
  have sub: "set ?starts \<subseteq> {..<coop_ib gdim}"
    by (auto simp: coop_warps_def coop_io_range)
  have "t mod coop_ib gdim \<in> set ?starts"
  proof -
    have "t mod coop_ib gdim < coop_ib gdim" using step by simp
    from coop_io_cover [OF this] show ?thesis by (force simp: coop_warps_def)
  qed
  then show ?thesis
    unfolding conv using grid_stride_starts [OF step body d sub, where s = s and t = t] True by simp
qed

lemma int_as_float_one: "int_as_float 0x3F800000 = 1"
proof -
  have "drop_bit 23 (0x3F800000 :: 32 word) = 0x7F" by (simp add: drop_bit_eq_div)
  then show ?thesis by (simp add: int_as_float_def Let_def)
qed

lemma scaled_row:
  "matmul_warppar (\<lambda>t. if t < n then x t * wt t else ob t) w k n * (1 / sqrt M)
     = (\<Sum>i<n. w (k * n + i) * (wt i * x i / sqrt M))"
  unfolding matmul_warppar_def sum_distrib_right
  by (rule sum.cong [OF refl]) simp

lemma dense_args:
  assumes "arch p \<noteq> Mixtral" and "n_experts p = 0"
  shows "ca_n_experts (coop_args p pos kvp) = 0"
    and "ca_n_experts_ac (coop_args p pos kvp) = 1"
    and "ca_dim (coop_args p pos kvp) = dim p"
    and "ca_hidden_dim (coop_args p pos kvp) = hidden_dim p"
    and "ca_norm_eps (coop_args p pos kvp) = norm_eps p"
    and "ca_act_gelu (coop_args p pos kvp) = (arch p = Gemma)"
  using assms by (simp_all add: coop_args_def)

lemma dense_slot:
  assumes "ca_n_experts args = 0" and "ca_n_experts_ac args = 1"
  shows "moe_weights args [0x3F800000, 0] 0 = 1" and "moe_experts args [0x3F800000, 0] 0 = 0"
  using assms by (simp_all add: moe_weights_def moe_experts_def int_as_float_one)

lemma dense_ffn13_val:
  assumes a: "ca_n_experts args = 0" "ca_n_experts_ac args = 1"
    and e: "cs_exp s = [0x3F800000, 0]" and k: "k < nat (ca_hidden_dim args)"
  shows "ffn13_val args L s k =
           (if ca_act_gelu args then gelu (matmul_warppar (cs_xb s) (cl_w1 L) k (nat (ca_dim args)) * cs_rmsscale s)
            else silu (matmul_warppar (cs_xb s) (cl_w1 L) k (nat (ca_dim args)) * cs_rmsscale s))
           * (matmul_warppar (cs_xb s) (cl_w3 L) k (nat (ca_dim args)) * cs_rmsscale s)"
  using k by (simp add: ffn13_val_def Let_def e dense_slot(2) [OF a])

lemma dense_ffn2_val:
  assumes a: "ca_n_experts args = 0" "ca_n_experts_ac args = 1"
    and e: "cs_exp s = [0x3F800000, 0]" and j: "j < nat (ca_dim args)"
  shows "ffn2_val args L s j = matmul_warppar (cs_hb s) (cl_w2 L) j (nat (ca_hidden_dim args))"
  using j by (simp add: ffn2_val_def Let_def e dense_slot [OF a])

lemma coop_ffn13_hb:
  "cs_hb (coop_ffn13 gdim args L s) t =
     (if t < nat (ca_hidden_dim args * ca_n_experts_ac args) \<and> 0 < gdim
      then ffn13_val args L s t else cs_hb s t)"
  unfolding coop_ffn13_def
  using coop_phase_apply [where body = "\<lambda>j hb. hb(j := ffn13_val args L s j)"
                            and h = "\<lambda>j a. ffn13_val args L s j"
                            and n = "nat (ca_hidden_dim args * ca_n_experts_ac args)"
                            and gdim = gdim and s = "cs_hb s" and t = t]
  by simp

lemma coop_ffn2_x:
  assumes "ca_n_experts_ac args = 1"
  shows "cs_x (coop_ffn2 gdim args L s) t =
           (if t < nat (ca_dim args) \<and> 0 < gdim then cs_x s t + ffn2_val args L s t else cs_x s t)"
  unfolding coop_ffn2_def
  using coop_phase_apply [where body = "\<lambda>j x. x(j mod nat (ca_dim args)
                                                := x (j mod nat (ca_dim args)) + ffn2_val args L s j)"
                            and h = "\<lambda>j a. a + ffn2_val args L s j"
                            and n = "nat (ca_dim args * ca_n_experts_ac args)"
                            and gdim = gdim and s = "cs_x s" and t = t]
  by (simp add: assms)

text \<open>
  Claim C10. For a configuration without experts (\<open>n_experts = 0\<close>) of an architecture
  other than Mixtral, the cooperative driver passes \<open>n_experts_ac = 1\<close>, the dummy buffer
  of \<^verbatim>\<open>prepare_cuda\<close> is read as the weight \<open>1.0\<close> in \<^verbatim>\<open>moe_weights[0]\<close> and as the
  expert index 0 in \<^verbatim>\<open>moe_experts[0]\<close>, the gate is skipped and the buffer is left as it
  is, and the feed-forward phases of a layer add to every \<open>x[j]\<close>, \<open>j < dim\<close>, the standard
  gated block \<open>W2 (act(W1 xb) * (W3 xb))\<close> of the RMS-normalised \<open>x\<close>, with \<open>act\<close> the GELU
  for Gemma and the SiLU otherwise (in exact arithmetic).
\<close>

theorem coop_dense_ffn:
  assumes "arch p \<noteq> Mixtral" and "n_experts p = 0" and "0 < gdim"
    and "cs_exp s = prepare_cuda_exp p fresh"
  shows "ca_n_experts_ac (coop_args p pos kvp) = 1
       \<and> moe_weights (coop_args p pos kvp) (cs_exp s) 0 = 1
       \<and> moe_experts (coop_args p pos kvp) (cs_exp s) 0 = 0
       \<and> (\<exists>s'. coop_ffn float_as_int gdim (coop_args p pos kvp) L s = Inr s'
              \<and> cs_exp s' = cs_exp s
              \<and> cs_x s' = (\<lambda>j. if j < nat (dim p)
                               then gated_ffn (if arch p = Gemma then gelu else silu)
                                      (cl_w1 L) (cl_w2 L) (cl_w3 L) (nat (dim p)) (nat (hidden_dim p))
                                      (rms_normalised (cs_x s) (cl_rms_ffn_weight L) (nat (dim p)) (norm_eps p))
                                      (cs_x s) j
                               else cs_x s j))"
proof -
  let ?a = "coop_args p pos kvp"
  let ?D = "nat (dim p)"
  let ?H = "nat (hidden_dim p)"
  let ?M = "(\<Sum>t<?D. cs_x s t * cs_x s t) / real ?D + norm_eps p"
  let ?act = "if arch p = Gemma then gelu else silu"
  let ?xn = "rms_normalised (cs_x s) (cl_rms_ffn_weight L) ?D (norm_eps p)"
  note a = dense_args [OF assms(1,2), of pos kvp]
  have e: "cs_exp s = [0x3F800000, 0]" using assms(2,4) by (simp add: prepare_cuda_exp_def)
  define s1 where "s1 = s\<lparr>cs_xb := (\<lambda>t. if t < ?D then cs_x s t * cl_rms_ffn_weight L t else cs_xb s t),
                           cs_rmsscale := 1 / sqrt ?M\<rparr>"
  define s2 where "s2 = coop_ffn13 gdim ?a L s1"
  define s3 where "s3 = coop_ffn2 gdim ?a L s2"
  have n: "coop_ffn_norm float_as_int ?a L s = Inr s1"
    by (simp add: coop_ffn_norm_def Let_def a rmsnorm_eq s1_def)
  have r: "coop_ffn float_as_int gdim ?a L s = Inr s3"
    by (simp add: coop_ffn_def n s2_def s3_def)
  have e1: "cs_exp s1 = [0x3F800000, 0]" by (simp add: s1_def e)
  have e2: "cs_exp s2 = [0x3F800000, 0]" by (simp add: s2_def coop_ffn13_def e1)
  have e3: "cs_exp s3 = cs_exp s" by (simp add: s3_def coop_ffn2_def e2 e)
  have x2: "cs_x s2 = cs_x s" by (simp add: s2_def coop_ffn13_def s1_def)
  have row: "matmul_warppar (cs_xb s1) w k ?D * cs_rmsscale s1 = (\<Sum>i<?D. w (k * ?D + i) * ?xn i)"
    for w k
  proof -
    have "cs_xb s1 = (\<lambda>t. if t < ?D then cs_x s t * cl_rms_ffn_weight L t else cs_xb s t)"
      and "cs_rmsscale s1 = 1 / sqrt ?M" by (simp_all add: s1_def)
    then show ?thesis unfolding rms_normalised_def by (simp only: scaled_row)
  qed
  have hb: "cs_hb s2 k = ?act (\<Sum>i<?D. cl_w1 L (k * ?D + i) * ?xn i)
                          * (\<Sum>i<?D. cl_w3 L (k * ?D + i) * ?xn i)" if "k < ?H" for k
  proof -
    have "cs_hb s2 k = ffn13_val ?a L s1 k"
      using that assms(3) by (simp add: s2_def coop_ffn13_hb a)
    also have "\<dots> = (if arch p = Gemma
                       then gelu (matmul_warppar (cs_xb s1) (cl_w1 L) k ?D * cs_rmsscale s1)
                       else silu (matmul_warppar (cs_xb s1) (cl_w1 L) k ?D * cs_rmsscale s1))
                      * (matmul_warppar (cs_xb s1) (cl_w3 L) k ?D * cs_rmsscale s1)"
      using dense_ffn13_val [OF a(1,2) e1, of k L] that by (simp add: a)
    finally show ?thesis unfolding row by simp
  qed
  have x3: "cs_x s3 j = gated_ffn ?act (cl_w1 L) (cl_w2 L) (cl_w3 L) ?D ?H ?xn (cs_x s) j"
    if "j < ?D" for j
  proof -
    have "cs_x s3 j = cs_x s2 j + ffn2_val ?a L s2 j"
      using that assms(3) by (simp add: s3_def coop_ffn2_x [OF a(2)] a)
    also have "ffn2_val ?a L s2 j = matmul_warppar (cs_hb s2) (cl_w2 L) j ?H"
      using dense_ffn2_val [OF a(1,2) e2, of j L] that by (simp add: a)
    also have "\<dots> = (\<Sum>k<?H. cl_w2 L (j * ?H + k)
                         * (?act (\<Sum>i<?D. cl_w1 L (k * ?D + i) * ?xn i)
                            * (\<Sum>i<?D. cl_w3 L (k * ?D + i) * ?xn i)))"
      unfolding matmul_warppar_def by (rule sum.cong [OF refl]) (simp add: hb)
    finally show ?thesis unfolding gated_ffn_def x2 .
  qed
  have x3': "cs_x s3 j = cs_x s j" if "\<not> j < ?D" for j
    using that by (simp add: s3_def coop_ffn2_x [OF a(2)] a x2)
  have "cs_x s3 = (\<lambda>j. if j < ?D then gated_ffn ?act (cl_w1 L) (cl_w2 L) (cl_w3 L) ?D ?H ?xn (cs_x s) j
                         else cs_x s j)"
    by (rule ext) (simp add: x3 x3')
  with r e3 a(2) dense_slot [OF a(1,2)] show ?thesis unfolding e by blast
qed

theorem coop_dense_ffn_witness:
  "moe_weights (coop_args tiny_config 0 0) (cs_exp (ones_state tiny_config)) 0 = 1
   \<and> moe_experts (coop_args tiny_config 0 0) (cs_exp (ones_state tiny_config)) 0 = 0
   \<and> (\<exists>s'. coop_ffn one_or_zero 1 (coop_args tiny_config 0 0) ones_layer (ones_state tiny_config) = Inr s'
          \<and> cs_exp s' = [0x3F800000, 0]
          \<and> cs_x s' 0
             = 1 + 128 * (silu (64 / sqrt (100001 / 100000)) * (64 / sqrt (100001 / 100000))))"
proof -
  have h: "arch tiny_config \<noteq> Mixtral" "n_experts tiny_config = 0" "(0::nat) < 1"
    "cs_exp (ones_state tiny_config) = prepare_cuda_exp tiny_config []"
    by (simp_all add: tiny_config_def ones_state_def)
  have v: "gated_ffn (if arch tiny_config = Gemma then gelu else silu)
             (cl_w1 ones_layer) (cl_w2 ones_layer) (cl_w3 ones_layer)
             (nat (dim tiny_config)) (nat (hidden_dim tiny_config))
             (rms_normalised (cs_x (ones_state tiny_config)) (cl_rms_ffn_weight ones_layer)
                (nat (dim tiny_config)) (norm_eps tiny_config))
             (cs_x (ones_state tiny_config)) 0
           = 1 + 128 * (silu (64 / sqrt (100001 / 100000)) * (64 / sqrt (100001 / 100000)))"
    by (simp add: gated_ffn_def rms_normalised_def tiny_config_def ones_layer_def ones_state_def)
  have d: "(0::nat) < nat (dim tiny_config)" by (simp add: tiny_config_def)
  have x: "cs_exp (ones_state tiny_config) = [0x3F800000, 0]"
    by (simp add: ones_state_def prepare_cuda_exp_def tiny_config_def)
  from coop_dense_ffn [OF h, of 0 0 one_or_zero ones_layer] v d x
  show ?thesis by auto
qed

end
